theory Spec2Isabelle
  imports Complex_Main
begin

section \<open>JavaScript values, classes and the object store\<close>

text \<open>
  The source is \<^verbatim>\<open>src/source/MapView.ts\<close>: the class \<^verbatim>\<open>MapView\<close>, a three.js
  \<^verbatim>\<open>Mesh\<close> that owns the root of the quadtree of map nodes, the providers and the
  level-of-detail control. Objects are mutable and shared (a node points back to its
  view, the view lists its children), so the model is an explicit store of objects
  addressed by identity.
\<close>

type_synonym oid = nat

text \<open>
  A JavaScript number. The only operation the source applies to a number is the key
  lookup of a \<^verbatim>\<open>Map\<close> (SameValueZero: equal values are the same key, \<^verbatim>\<open>NaN\<close> is
  equal to itself, the two zeros are one key) and \<^verbatim>\<open>typeof\<close>; for these a finite
  number is the value it denotes.
\<close>

datatype number = Fin real | NaN | PosInfinity | NegInfinity

datatype jsval = Undefined | Null | Num number | Obj oid

text \<open>The operator \<^verbatim>\<open>===\<close>: identity on objects, and \<^verbatim>\<open>NaN\<close> differs from itself.\<close>

definition strict_eq :: "jsval \<Rightarrow> jsval \<Rightarrow> bool" where
  "strict_eq a b \<longleftrightarrow> a = b \<and> a \<noteq> Num NaN"

text \<open>
  The constructors (classes) an object of the store can have: \<^verbatim>\<open>obj.constructor\<close>.
  The four node variants are the classes imported by the source; \<open>CustomMapNode\<close>
  stands for the further subclasses of \<^verbatim>\<open>MapNode\<close> a caller may pass to the
  constructor ("Can also be a custom MapNode instance"), \<open>NumberClass\<close> for the
  built-in \<^verbatim>\<open>Number\<close>, \<open>LODControlClass\<close> for the further implementations of the
  interface \<^verbatim>\<open>LODControl\<close>, \<open>MapProviderClass\<close> for the further subclasses of
  \<^verbatim>\<open>MapProvider\<close>, \<open>OtherClass\<close> for any class the source does not name.
\<close>

datatype klass =
    Object3D
  | Mesh
  | MapViewClass
  | MapNode
  | MapPlaneNode
  | MapSphereNode
  | MapHeightNode
  | MapHeightNodeShader
  | CustomMapNode nat
  | NumberClass
  | LODRaycast
  | LODControlClass nat
  | OpenStreetMapsProvider
  | MapProviderClass nat
  | MeshBasicMaterial
  | BufferGeometry
  | OtherClass nat

fun isMapNode :: "klass \<Rightarrow> bool" where
  "isMapNode MapNode = True"
| "isMapNode MapPlaneNode = True"
| "isMapNode MapSphereNode = True"
| "isMapNode MapHeightNode = True"
| "isMapNode MapHeightNodeShader = True"
| "isMapNode (CustomMapNode _) = True"
| "isMapNode _ = False"

text \<open>The flag \<^verbatim>\<open>isObject3D\<close> that three.js sets on every scene-graph object.\<close>

fun isObject3D :: "klass \<Rightarrow> bool" where
  "isObject3D Object3D = True"
| "isObject3D Mesh = True"
| "isObject3D MapViewClass = True"
| "isObject3D k = isMapNode k"



type_synonym vector3 = "real \<times> real \<times> real"

text \<open>The property \<^verbatim>\<open>childrenCache\<close> of a node: absent, null, or an array of nodes.\<close>

datatype cache = CacheUndefined | CacheNull | CacheArray "oid list"

text \<open>JavaScript truthiness of the cache: every array, also the empty one, is truthy.\<close>

fun truthy :: "cache \<Rightarrow> bool" where
  "truthy (CacheArray _) = True"
| "truthy _ = False"

text \<open>
  An object of the store with the properties the source reads or writes: those of
  \<^verbatim>\<open>Object3D\<close> and \<^verbatim>\<open>Mesh\<close> (\<open>parent\<close>, \<open>children\<close>, \<open>scale\<close>, \<open>geometry\<close>,
  \<open>material\<close>), the fields \<^verbatim>\<open>MapView\<close> declares (\<open>lod\<close>, \<open>provider\<close>,
  \<open>heightProvider\<close>, \<open>root\<close>) and the two properties of a node the view touches
  (\<open>mapView\<close>, \<open>childrenCache\<close>).
\<close>

record obj =
  klass :: klass
  parent :: "oid option"
  children :: "oid list"
  scale :: vector3
  geometry :: jsval
  material :: jsval
  lod :: jsval
  provider :: jsval
  heightProvider :: jsval
  root :: jsval
  mapView :: jsval
  childrenCache :: cache

text \<open>
  Calls that leave the view for a collaborator whose code is outside the source file
  are recorded in a trace, in the order they are made.
\<close>

datatype event =
    TextureRequested oid jsval jsval
  | UpdateLOD jsval oid jsval jsval jsval
  | GetMetaData jsval
  | Draw oid

record state =
  heap :: "oid \<Rightarrow> obj"
  next_oid :: oid
  trace :: "event list"

datatype error = ModeNotRegistered number | TypeError | RangeError

definition upd :: "oid \<Rightarrow> (obj \<Rightarrow> obj) \<Rightarrow> state \<Rightarrow> state" where
  "upd a f s = s\<lparr>heap := (heap s)(a := f (heap s a))\<rparr>"

definition blank :: "klass \<Rightarrow> obj" where
  "blank k = \<lparr>klass = k, parent = None, children = [], scale = (1, 1, 1),
     geometry = Undefined, material = Undefined, lod = Undefined, provider = Undefined,
     heightProvider = Undefined, root = Undefined, mapView = Undefined,
     childrenCache = CacheUndefined\<rparr>"

text \<open>The operator \<^verbatim>\<open>new\<close>: the next free identity holds the new object.\<close>

definition alloc :: "obj \<Rightarrow> state \<Rightarrow> oid \<times> state" where
  "alloc ob s = (next_oid s, s\<lparr>heap := (heap s)(next_oid s := ob), next_oid := Suc (next_oid s)\<rparr>)"

section \<open>The mode registry\<close>

text \<open>
  A JavaScript \<^verbatim>\<open>Map\<close> keeps its entries in insertion order; \<^verbatim>\<open>set\<close> on a key that is
  present replaces the value in place. \<^verbatim>\<open>new Map(entries)\<close> sets the entries one by one.
\<close>

fun Map_set :: "'k \<Rightarrow> 'v \<Rightarrow> ('k \<times> 'v) list \<Rightarrow> ('k \<times> 'v) list" where
  "Map_set k v [] = [(k, v)]"
| "Map_set k v ((k', v') # m) = (if k' = k then (k', v) # m else (k', v') # Map_set k v m)"

definition Map_new :: "('k \<times> 'v) list \<Rightarrow> ('k \<times> 'v) list" where
  "Map_new entries = foldl (\<lambda>m (k, v). Map_set k v m) [] entries"

definition Map_has :: "('k \<times> 'v) list \<Rightarrow> 'k \<Rightarrow> bool" where
  "Map_has m k \<longleftrightarrow> k \<in> set (map fst m)"

definition Map_get :: "('k \<times> 'v) list \<Rightarrow> 'k \<Rightarrow> 'v option" where
  "Map_get m k = map_of m k"

definition PLANAR :: number where
  "PLANAR = Fin 200"

definition SPHERICAL :: number where
  "SPHERICAL = Fin 201"

definition HEIGHT :: number where
  "HEIGHT = Fin 202"

definition HEIGHT_SHADER :: number where
  "HEIGHT_SHADER = Fin 203"

definition mapModes :: "(number \<times> klass) list" where
  "mapModes = Map_new [
     (PLANAR, MapPlaneNode),
     (SPHERICAL, MapSphereNode),
     (HEIGHT, MapHeightNode),
     (HEIGHT_SHADER, MapHeightNodeShader)]"

section \<open>The scene graph of three.js\<close>

text \<open>
  \<^verbatim>\<open>Object3D.remove(object)\<close> of the three.js library: when \<open>object\<close> is among the
  children (found by \<^verbatim>\<open>indexOf\<close>, that is by identity), its parent becomes null and its
  first occurrence is spliced out; otherwise nothing happens.
\<close>

definition Object3D_remove :: "oid \<Rightarrow> jsval \<Rightarrow> state \<Rightarrow> state" where
  "Object3D_remove this object s =
     (case object of
        Obj c \<Rightarrow>
          if c \<in> set (children (heap s this)) then
            (let s1 = upd c (\<lambda>x. x\<lparr>parent := None\<rparr>) s
             in upd this (\<lambda>x. x\<lparr>children := remove1 c (children x)\<rparr>) s1)
          else s
      | _ \<Rightarrow> s)"

text \<open>
  \<^verbatim>\<open>Object3D.add(object)\<close>: adding an object to itself, or something that is not an
  \<^verbatim>\<open>Object3D\<close>, only logs to the console; otherwise the object leaves its present
  parent, gets \<open>this\<close> as parent and is pushed at the end of the children.
\<close>

definition Object3D_add :: "oid \<Rightarrow> jsval \<Rightarrow> state \<Rightarrow> state" where
  "Object3D_add this object s =
     (case object of
        Obj c \<Rightarrow>
          if c = this then s
          else if isObject3D (klass (heap s c)) then
            (let s1 = (case parent (heap s c) of
                         None \<Rightarrow> s
                       | Some p \<Rightarrow> Object3D_remove p (Obj c) s);
                 s2 = upd c (\<lambda>x. x\<lparr>parent := Some this\<rparr>) s1
             in upd this (\<lambda>x. x\<lparr>children := children x @ [c]\<rparr>) s2)
          else s
      | _ \<Rightarrow> s)"

text \<open>
  \<^verbatim>\<open>Object3D.traverse(callback)\<close>: the callback on the object, then the traversal of each
  child, in order. The recursion follows the store and has no bound of its own; the
  first argument is the depth of call stack that is left, and running out of it is the
  \<^verbatim>\<open>RangeError\<close> of the engine.
\<close>

fun traverse :: "nat \<Rightarrow> (oid \<Rightarrow> state \<Rightarrow> state) \<Rightarrow> oid \<Rightarrow> state \<Rightarrow> (error \<times> state) + state"
  and traverse_children ::
    "nat \<Rightarrow> (oid \<Rightarrow> state \<Rightarrow> state) \<Rightarrow> oid list \<Rightarrow> state \<Rightarrow> (error \<times> state) + state" where
  "traverse 0 callback a s = Inl (RangeError, s)"
| "traverse (Suc n) callback a s =
     (let s' = callback a s in traverse_children n callback (children (heap s' a)) s')"
| "traverse_children n callback [] s = Inr s"
| "traverse_children n callback (c # cs) s =
     (case traverse n callback c s of
        Inl e \<Rightarrow> Inl e
      | Inr s' \<Rightarrow> traverse_children n callback cs s')"

text \<open>
  \<^verbatim>\<open>Vector3.copy(v)\<close> reads \<^verbatim>\<open>v.x\<close>, \<^verbatim>\<open>v.y\<close>, \<^verbatim>\<open>v.z\<close>: on undefined or null it
  throws a \<^verbatim>\<open>TypeError\<close>. A static vector is therefore a \<open>vector3 option\<close>, with
  \<open>None\<close> for a static that is absent or null.
\<close>

section \<open>The node classes, as far as the view uses them\<close>

text \<open>
  The node classes live in \<^verbatim>\<open>./nodes/*\<close>, outside the source file. Their statics
  \<^verbatim>\<open>BASE_GEOMETRY\<close> and \<^verbatim>\<open>BASE_SCALE\<close> are parameters of the model; \<open>stack_limit\<close>
  is the depth of call stack available to a traversal.
\<close>

record env =
  BASE_GEOMETRY :: "klass \<Rightarrow> jsval"
  BASE_SCALE :: "klass \<Rightarrow> vector3 option"
  stack_limit :: nat

text \<open>
  \<^verbatim>\<open>C.BASE_GEOMETRY\<close> and \<^verbatim>\<open>C.BASE_SCALE\<close> for a constructor \<open>C\<close>: only node classes
  carry these statics; on every other constructor (\<^verbatim>\<open>Number\<close> among them) the
  property is undefined.
\<close>

definition static_BASE_GEOMETRY :: "env \<Rightarrow> klass \<Rightarrow> jsval" where
  "static_BASE_GEOMETRY e k = (if isMapNode k then BASE_GEOMETRY e k else Undefined)"

definition static_BASE_SCALE :: "env \<Rightarrow> klass \<Rightarrow> vector3 option" where
  "static_BASE_SCALE e k = (if isMapNode k then BASE_SCALE e k else None)"

text \<open>
  \<^verbatim>\<open>v.constructor\<close>: the class of an object, \<^verbatim>\<open>Number\<close> for a primitive number, a
  \<^verbatim>\<open>TypeError\<close> (here \<open>None\<close>) on undefined and null.
\<close>

fun constructor_of :: "state \<Rightarrow> jsval \<Rightarrow> klass option" where
  "constructor_of s (Obj a) = Some (klass (heap s a))"
| "constructor_of s (Num n) = Some NumberClass"
| "constructor_of s Undefined = None"
| "constructor_of s Null = None"

text \<open>
  Modelled from the spec: \<^verbatim>\<open>MapNode.loadTexture\<close> (the node classes are not part of the
  source file). The spec says of a node that its content is requested from the
  provider, asynchronously, and that the node reaches the provider through its
  reference to the owning view; the required data are the image and, for a variant
  that needs it, the elevation. The call is modelled as the request it dispatches: the
  node, and the color provider and the height provider of the view the node points
  back to at that moment (\<open>Undefined\<close> when the node has no view). The content arrives
  on a later turn of the loop and is not part of the call.
\<close>

definition loadTexture :: "oid \<Rightarrow> state \<Rightarrow> state" where
  "loadTexture a s =
     s\<lparr>trace := trace s @
        [TextureRequested a
           (case mapView (heap s a) of
              Obj v \<Rightarrow> provider (heap s v)
            | _ \<Rightarrow> Undefined)
           (case mapView (heap s a) of
              Obj v \<Rightarrow> heightProvider (heap s v)
            | _ \<Rightarrow> Undefined)]\<rparr>"

text \<open>\<^verbatim>\<open>loadTexture\<close> is a method of \<^verbatim>\<open>MapNode\<close>: defined on the instances of node classes.\<close>

definition has_loadTexture :: "obj \<Rightarrow> bool" where
  "has_loadTexture x = isMapNode (klass x)"

section \<open>MapView\<close>

text \<open>
  \<^verbatim>\<open>setRoot(root)\<close>, lines 104 to 136. For a number the registry is consulted and the
  registered constructor is read into \<^verbatim>\<open>rootConstructor\<close>, but the object is then built
  with \<^verbatim>\<open>new root.constructor(null, null, null, this, MapNode.ROOT, 0, 0, 0)\<close>, and
  the constructor of a number is \<^verbatim>\<open>Number\<close>: the new root is a fresh \<^verbatim>\<open>Number\<close>
  object (wrapping the value of \<^verbatim>\<open>Number(null)\<close>, zero).
\<close>

definition setRoot :: "env \<Rightarrow> oid \<Rightarrow> jsval \<Rightarrow> state \<Rightarrow> (error \<times> state) + state" where
  "setRoot e this root0 s =
     (case (case root0 of
              Num n \<Rightarrow>
                if \<not> Map_has mapModes n then Inl (ModeNotRegistered n, s)
                else
                  (let rootConstructor = Map_get mapModes n;
                       (r, s') = alloc (blank NumberClass) s
                   in Inr (Obj r, s'))
            | _ \<Rightarrow> Inr (root0, s)) of
        Inl err \<Rightarrow> Inl err
      | Inr (root1, s0) \<Rightarrow>
          (let s1 = (if root (heap s0 this) \<noteq> Null then
                       upd this (\<lambda>x. x\<lparr>root := Null\<rparr>)
                         (Object3D_remove this (root (heap s0 this)) s0)
                     else s0);
               s2 = upd this (\<lambda>x. x\<lparr>root := root1\<rparr>) s1
           in case constructor_of s2 (root (heap s2 this)) of
                None \<Rightarrow> Inl (TypeError, s2)
              | Some c \<Rightarrow>
                  (let s3 = upd this (\<lambda>x. x\<lparr>geometry := static_BASE_GEOMETRY e c\<rparr>) s2
                   in case static_BASE_SCALE e c of
                        None \<Rightarrow> Inl (TypeError, s3)
                      | Some v \<Rightarrow>
                          (let s4 = upd this (\<lambda>x. x\<lparr>scale := v\<rparr>) s3
                           in case root (heap s4 this) of
                                Obj r \<Rightarrow>
                                  (let s5 = upd r (\<lambda>x. x\<lparr>mapView := Obj this\<rparr>) s4
                                   in Inr (Object3D_add this (root (heap s5 this)) s5))
                              | _ \<Rightarrow> Inl (TypeError, s4)))))"

text \<open>\<^verbatim>\<open>clear()\<close>, lines 171 to 191: the callback, then the traversal from the view.\<close>

definition clear_callback :: "oid \<Rightarrow> state \<Rightarrow> state" where
  "clear_callback c s =
     (let s1 = (if truthy (childrenCache (heap s c)) then
                  upd c (\<lambda>x. x\<lparr>childrenCache := CacheNull\<rparr>) s
                else s)
      in if has_loadTexture (heap s1 c) then loadTexture c s1 else s1)"

definition clear :: "env \<Rightarrow> oid \<Rightarrow> state \<Rightarrow> (error \<times> state) + (jsval \<times> state)" where
  "clear e this s =
     (case traverse (stack_limit e) clear_callback this s of
        Inl err \<Rightarrow> Inl err
      | Inr s' \<Rightarrow> Inr (Obj this, s'))"

text \<open>\<^verbatim>\<open>setProvider(provider)\<close>, lines 143 to 150.\<close>

definition setProvider :: "env \<Rightarrow> oid \<Rightarrow> jsval \<Rightarrow> state \<Rightarrow> (error \<times> state) + state" where
  "setProvider e this provider0 s =
     (if \<not> strict_eq provider0 (provider (heap s this)) then
        (case clear e this (upd this (\<lambda>x. x\<lparr>provider := provider0\<rparr>) s) of
           Inl err \<Rightarrow> Inl err
         | Inr (_, s') \<Rightarrow> Inr s')
      else Inr s)"

text \<open>\<^verbatim>\<open>setHeightProvider(heightProvider)\<close>, lines 157 to 164.\<close>

definition setHeightProvider :: "env \<Rightarrow> oid \<Rightarrow> jsval \<Rightarrow> state \<Rightarrow> (error \<times> state) + state" where
  "setHeightProvider e this heightProvider0 s =
     (if \<not> strict_eq heightProvider0 (heightProvider (heap s this)) then
        (case clear e this (upd this (\<lambda>x. x\<lparr>heightProvider := heightProvider0\<rparr>) s) of
           Inl err \<Rightarrow> Inl err
         | Inr (_, s') \<Rightarrow> Inr s')
      else Inr s)"



text \<open>
  \<^verbatim>\<open>raycast(raycaster, intersects)\<close>, lines 211 to 214. The array \<open>intersects\<close> is
  passed by reference; the model returns it beside the result.
\<close>

definition raycast :: "oid \<Rightarrow> jsval \<Rightarrow> 'a list \<Rightarrow> state \<Rightarrow> bool \<times> 'a list \<times> state" where
  "raycast this raycaster intersects s = (False, intersects, s)"

text \<open>
  The constructor, lines 82 to 95. \<^verbatim>\<open>super(undefined, material)\<close> is the constructor of
  \<^verbatim>\<open>Mesh\<close>: a fresh object without parent or children, of scale \<open>(1, 1, 1)\<close>, with a
  new \<^verbatim>\<open>BufferGeometry\<close> for the undefined geometry and the given material. The last
  statement passes the argument \<open>root\<close>, not the field just assigned, to \<^verbatim>\<open>setRoot\<close>.
\<close>

definition MapView_constructor ::
  "env \<Rightarrow> jsval \<Rightarrow> jsval \<Rightarrow> jsval \<Rightarrow> state \<Rightarrow> (error \<times> state) + (oid \<times> state)" where
  "MapView_constructor e root0 provider0 heightProvider0 s =
     (let (m, s1) = alloc (blank MeshBasicMaterial) s;
          (g, s2) = alloc (blank BufferGeometry) s1;
          (this, s3) = alloc ((blank MapViewClass)\<lparr>geometry := Obj g, material := Obj m\<rparr>) s2;
          (l, s4) = alloc (blank LODRaycast) s3;
          s5 = upd this (\<lambda>x. x\<lparr>lod := Obj l\<rparr>) s4;
          (p, s6) = (if provider0 \<noteq> Undefined then (provider0, s5)
                     else (let (q, s') = alloc (blank OpenStreetMapsProvider) s5
                           in (Obj q, s')));
          s7 = upd this (\<lambda>x. x\<lparr>provider := p\<rparr>) s6;
          s8 = upd this (\<lambda>x. x\<lparr>heightProvider :=
                 (if heightProvider0 \<noteq> Undefined then heightProvider0 else Null)\<rparr>) s7;
          s9 = upd this (\<lambda>x. x\<lparr>root := (if root0 \<noteq> Undefined then root0 else Num PLANAR)\<rparr>) s8
      in case setRoot e this root0 s9 of
           Inl err \<Rightarrow> Inl err
         | Inr s' \<Rightarrow> Inr (this, s'))"

section \<open>A frame of the renderer\<close>




section \<open>Resident nodes\<close>

text \<open>
  The objects of a subtree in the order a traversal meets them, read off the children
  lists; \<open>None\<close> when the subtree is deeper than the given bound (or not a finite tree).
\<close>

fun preorder :: "nat \<Rightarrow> (oid \<Rightarrow> oid list) \<Rightarrow> oid \<Rightarrow> oid list option"
  and preorder_list :: "nat \<Rightarrow> (oid \<Rightarrow> oid list) \<Rightarrow> oid list \<Rightarrow> oid list option" where
  "preorder 0 kids a = None"
| "preorder (Suc n) kids a = map_option (Cons a) (preorder_list n kids (kids a))"
| "preorder_list n kids [] = Some []"
| "preorder_list n kids (c # cs) =
     (case preorder n kids c of
        None \<Rightarrow> None
      | Some xs \<Rightarrow> map_option (append xs) (preorder_list n kids cs))"

definition kids_of :: "state \<Rightarrow> oid \<Rightarrow> oid list" where
  "kids_of s a = children (heap s a)"

text \<open>The resident nodes of a view: everything below the view in the scene graph.\<close>

definition resident_nodes :: "nat \<Rightarrow> state \<Rightarrow> oid \<Rightarrow> oid list option" where
  "resident_nodes n s this = preorder_list n (kids_of s) (kids_of s this)"

section \<open>Notions used to state the properties\<close>

text \<open>What one call of the callback of clear does to the store and to the trace.\<close>

definition dropped :: "obj \<Rightarrow> obj" where
  "dropped x = (if truthy (childrenCache x) then x\<lparr>childrenCache := CacheNull\<rparr> else x)"

definition request_of :: "state \<Rightarrow> oid \<Rightarrow> event" where
  "request_of s a =
     TextureRequested a
       (case mapView (heap s a) of Obj v \<Rightarrow> provider (heap s v) | _ \<Rightarrow> Undefined)
       (case mapView (heap s a) of Obj v \<Rightarrow> heightProvider (heap s v) | _ \<Rightarrow> Undefined)"

text \<open>The state a call leaves behind, whether it returned or threw.\<close>

definition state_after :: "(error \<times> state) + state \<Rightarrow> state" where
  "state_after r = (case r of Inl (err, s) \<Rightarrow> s | Inr s \<Rightarrow> s)"


definition returned :: "'e + 'a \<Rightarrow> bool" where
  "returned r = (case r of Inl _ \<Rightarrow> False | Inr _ \<Rightarrow> True)"

text \<open>
  The steps of \<open>setRoot\<close> on an object, named for the proofs: detaching the old root
  (lines 119 to 123), then storing the new root and the geometry (lines 126 to 129);
  and the constructor up to its call of \<open>setRoot\<close> (lines 84 to 93).
\<close>

definition detach_root :: "oid \<Rightarrow> state \<Rightarrow> state" where
  "detach_root this s =
     (if root (heap s this) \<noteq> Null then
        upd this (\<lambda>x. x\<lparr>root := Null\<rparr>) (Object3D_remove this (root (heap s this)) s)
      else s)"

definition install_root :: "env \<Rightarrow> oid \<Rightarrow> oid \<Rightarrow> state \<Rightarrow> state" where
  "install_root e this r s =
     upd this (\<lambda>x. x\<lparr>geometry := static_BASE_GEOMETRY e (klass (heap s r))\<rparr>)
       (upd this (\<lambda>x. x\<lparr>root := Obj r\<rparr>) (detach_root this s))"

definition MapView_fields :: "jsval \<Rightarrow> jsval \<Rightarrow> jsval \<Rightarrow> state \<Rightarrow> oid \<times> state" where
  "MapView_fields root0 provider0 heightProvider0 s =
     (let (m, s1) = alloc (blank MeshBasicMaterial) s;
          (g, s2) = alloc (blank BufferGeometry) s1;
          (this, s3) = alloc ((blank MapViewClass)\<lparr>geometry := Obj g, material := Obj m\<rparr>) s2;
          (l, s4) = alloc (blank LODRaycast) s3;
          s5 = upd this (\<lambda>x. x\<lparr>lod := Obj l\<rparr>) s4;
          (p, s6) = (if provider0 \<noteq> Undefined then (provider0, s5)
                     else (let (q, s') = alloc (blank OpenStreetMapsProvider) s5
                           in (Obj q, s')));
          s7 = upd this (\<lambda>x. x\<lparr>provider := p\<rparr>) s6;
          s8 = upd this (\<lambda>x. x\<lparr>heightProvider :=
                 (if heightProvider0 \<noteq> Undefined then heightProvider0 else Null)\<rparr>) s7;
          s9 = upd this (\<lambda>x. x\<lparr>root := (if root0 \<noteq> Undefined then root0 else Num PLANAR)\<rparr>) s8
      in (this, s9))"







section \<open>A view with five resident nodes\<close>

text \<open>
  The view is object 0, its root node 1 has the four children 2 to 5; node 2 holds a
  children cache. Object 14 is a spherical node outside the tree, 10 the provider,
  11 the level-of-detail control.
\<close>

definition map_node :: "klass \<Rightarrow> oid option \<Rightarrow> oid list \<Rightarrow> jsval \<Rightarrow> cache \<Rightarrow> obj" where
  "map_node k p cs v c = (blank k)\<lparr>parent := p, children := cs, mapView := v, childrenCache := c\<rparr>"

definition example_view :: obj where
  "example_view = (blank MapViewClass)\<lparr>children := [1], geometry := Obj 12, material := Obj 13,
     lod := Obj 11, provider := Obj 10, heightProvider := Null, root := Obj 1\<rparr>"

definition example_state :: state where
  "example_state = \<lparr>heap = (\<lambda>_. blank (OtherClass 0))
      (0 := example_view,
       1 := map_node MapPlaneNode (Some 0) [2, 3, 4, 5] (Obj 0) CacheNull,
       2 := map_node MapPlaneNode (Some 1) [] (Obj 0) (CacheArray [6, 7, 8, 9]),
       3 := map_node MapPlaneNode (Some 1) [] (Obj 0) CacheNull,
       4 := map_node MapPlaneNode (Some 1) [] (Obj 0) CacheNull,
       5 := map_node MapPlaneNode (Some 1) [] (Obj 0) CacheNull,
       10 := blank OpenStreetMapsProvider,
       11 := blank LODRaycast,
       14 := map_node MapSphereNode None [] Undefined CacheNull),
     next_oid = 20, trace = []\<rparr>"

definition example_env :: env where
  "example_env = \<lparr>BASE_GEOMETRY = (\<lambda>k. Obj 12),
     BASE_SCALE = (\<lambda>k. if k = MapNode then None else Some (40075016, 1, 40075016)),
     stack_limit = 100\<rparr>"


section \<open>Auxiliary facts\<close>

lemma mapModes_entries:
  "mapModes = [(Fin 200, MapPlaneNode), (Fin 201, MapSphereNode),
     (Fin 202, MapHeightNode), (Fin 203, MapHeightNodeShader)]"
  by (simp add: mapModes_def Map_new_def PLANAR_def SPHERICAL_def HEIGHT_def HEIGHT_SHADER_def)

subsection \<open>The callback of clear and the traversal\<close>

lemma heap_upd: "heap (upd a f s) = (heap s)(a := f (heap s a))"
  by (simp add: upd_def)

lemma next_oid_upd: "next_oid (upd a f s) = next_oid s"
  by (simp add: upd_def)

lemma trace_upd: "trace (upd a f s) = trace s"
  by (simp add: upd_def)

lemma dropped_fields:
  "klass (dropped x) = klass x" "parent (dropped x) = parent x"
  "children (dropped x) = children x" "scale (dropped x) = scale x"
  "geometry (dropped x) = geometry x" "material (dropped x) = material x"
  "lod (dropped x) = lod x" "provider (dropped x) = provider x"
  "heightProvider (dropped x) = heightProvider x" "root (dropped x) = root x"
  "mapView (dropped x) = mapView x"
  by (simp_all add: dropped_def)

lemma dropped_idem: "dropped (dropped x) = dropped x"
  by (simp add: dropped_def)

lemma clear_callback_heap: "heap (clear_callback c s) = (heap s)(c := dropped (heap s c))"
  by (simp add: clear_callback_def loadTexture_def upd_def dropped_def Let_def)

lemma clear_callback_next_oid: "next_oid (clear_callback c s) = next_oid s"
  by (simp add: clear_callback_def loadTexture_def upd_def Let_def)

lemma clear_callback_trace:
  "trace (clear_callback c s) = trace s @ (if has_loadTexture (heap s c) then [request_of s c] else [])"
  by (auto simp add: clear_callback_def loadTexture_def upd_def Let_def request_of_def
      has_loadTexture_def split: jsval.splits)

lemma kids_of_clear_callback: "kids_of (clear_callback c s) = kids_of s"
  by (auto simp add: kids_of_def clear_callback_heap dropped_fields fun_eq_iff)

lemma kids_of_fold: "kids_of (fold clear_callback ns s) = kids_of s"
  by (induction ns arbitrary: s) (simp_all add: kids_of_clear_callback)

lemma traverse_children_is_fold:
  assumes step: "\<And>a s ns. preorder n (kids_of s) a = Some ns \<Longrightarrow>
                   traverse n clear_callback a s = Inr (fold clear_callback ns s)"
  shows "preorder_list n (kids_of s) cs = Some ns \<Longrightarrow>
         traverse_children n clear_callback cs s = Inr (fold clear_callback ns s)"
proof (induction cs arbitrary: s ns)
  case Nil
  then show ?case by simp
next
  case (Cons c cs)
  from Cons.prems obtain xs ys where
    xs: "preorder n (kids_of s) c = Some xs" and
    ys: "preorder_list n (kids_of s) cs = Some ys" and
    ns: "ns = xs @ ys"
    by (auto split: option.splits)
  have "traverse n clear_callback c s = Inr (fold clear_callback xs s)"
    using step xs by simp
  moreover have "traverse_children n clear_callback cs (fold clear_callback xs s) =
      Inr (fold clear_callback ys (fold clear_callback xs s))"
    using Cons.IH [of "fold clear_callback xs s" ys] ys by (simp add: kids_of_fold)
  ultimately show ?case by (simp add: ns)
qed

lemma traverse_is_fold:
  "preorder n (kids_of s) a = Some ns \<Longrightarrow>
   traverse n clear_callback a s = Inr (fold clear_callback ns s)"
proof (induction n arbitrary: a s ns)
  case 0
  then show ?case by simp
next
  case (Suc n)
  from Suc.prems obtain ys where
    ys: "preorder_list n (kids_of s) (kids_of s a) = Some ys" and ns: "ns = a # ys"
    by auto
  have "traverse_children n clear_callback (kids_of (clear_callback a s) a) (clear_callback a s) =
      Inr (fold clear_callback ys (clear_callback a s))"
    using traverse_children_is_fold [of n "clear_callback a s" "kids_of s a" ys] Suc.IH ys
    by (simp add: kids_of_clear_callback)
  then show ?case by (simp add: ns kids_of_def Let_def)
qed

lemma fold_clear_callback_next_oid: "next_oid (fold clear_callback ns s) = next_oid s"
  by (induction ns arbitrary: s) (simp_all add: clear_callback_next_oid)

lemma fold_clear_callback_heap:
  "heap (fold clear_callback ns s) = (\<lambda>a. if a \<in> set ns then dropped (heap s a) else heap s a)"
proof (induction ns arbitrary: s)
  case Nil
  then show ?case by simp
next
  case (Cons c ns)
  show ?case
    by (auto simp add: Cons.IH clear_callback_heap fun_eq_iff dropped_idem)
qed

lemma request_of_clear_callback: "request_of (clear_callback c s) a = request_of s a"
  by (auto simp add: request_of_def clear_callback_heap dropped_fields split: jsval.splits)

lemma has_loadTexture_dropped: "has_loadTexture (dropped x) = has_loadTexture x"
  by (simp add: has_loadTexture_def dropped_fields)

lemma fold_clear_callback_trace:
  "trace (fold clear_callback ns s) =
     trace s @ map (request_of s) (filter (\<lambda>a. has_loadTexture (heap s a)) ns)"
proof (induction ns arbitrary: s)
  case Nil
  then show ?case by simp
next
  case (Cons c ns)
  have "filter (\<lambda>a. has_loadTexture (heap (clear_callback c s) a)) ns =
        filter (\<lambda>a. has_loadTexture (heap s a)) ns"
    by (rule filter_cong) (auto simp add: clear_callback_heap has_loadTexture_dropped)
  moreover have "map (request_of (clear_callback c s)) = map (request_of s)"
    by (simp add: request_of_clear_callback fun_eq_iff)
  ultimately show ?case
    by (simp add: Cons.IH clear_callback_trace)
qed


subsection \<open>Depth bounds\<close>

lemma preorder_mono_aux:
  assumes step: "\<And>a ns. preorder n kids a = Some ns \<Longrightarrow> preorder (Suc n) kids a = Some ns"
  shows "preorder_list n kids cs = Some ns \<Longrightarrow> preorder_list (Suc n) kids cs = Some ns"
proof (induction cs arbitrary: ns)
  case Nil
  then show ?case by simp
next
  case (Cons c cs)
  from Cons.prems obtain xs ys where
    xs: "preorder n kids c = Some xs" and
    ys: "preorder_list n kids cs = Some ys" and
    ns: "ns = xs @ ys"
    by (auto split: option.splits)
  show ?case using step [OF xs] Cons.IH [OF ys] by (simp add: ns del: preorder.simps)
qed

lemma preorder_Suc: "preorder n kids a = Some ns \<Longrightarrow> preorder (Suc n) kids a = Some ns"
proof (induction n arbitrary: a ns)
  case 0
  then show ?case by simp
next
  case (Suc n)
  from Suc.prems obtain ys where
    ys: "preorder_list n kids (kids a) = Some ys" and ns: "ns = a # ys"
    by auto
  have "preorder_list (Suc n) kids (kids a) = Some ys"
    using preorder_mono_aux [of n kids "kids a" ys] Suc.IH ys by blast
  then show ?case by (simp add: ns)
qed

lemma preorder_list_Suc:
  "preorder_list n kids cs = Some ns \<Longrightarrow> preorder_list (Suc n) kids cs = Some ns"
  using preorder_mono_aux [of n kids cs ns] preorder_Suc by blast

lemma preorder_list_mono:
  "preorder_list n kids cs = Some ns \<Longrightarrow> n \<le> m \<Longrightarrow> preorder_list m kids cs = Some ns"
proof (induction m)
  case 0
  then show ?case by simp
next
  case (Suc m)
  show ?case
  proof (cases "n \<le> m")
    case True
    then show ?thesis using Suc preorder_list_Suc by blast
  next
    case False
    then have "n = Suc m" using Suc.prems by simp
    then show ?thesis using Suc.prems by simp
  qed
qed

lemma preorder_of_resident:
  assumes "resident_nodes n s this = Some rs" and "n < m"
  shows "preorder m (kids_of s) this = Some (this # rs)"
proof -
  from \<open>n < m\<close> obtain k where m: "m = Suc k" and "n \<le> k"
    by (cases m) auto
  have "preorder_list n (kids_of s) (kids_of s this) = Some rs"
    using assms(1) by (simp add: resident_nodes_def)
  then have "preorder_list k (kids_of s) (kids_of s this) = Some rs"
    using \<open>n \<le> k\<close> by (rule preorder_list_mono)
  then show ?thesis by (simp add: m)
qed

lemma clear_result:
  assumes "resident_nodes n s this = Some rs" and "n < stack_limit e"
  shows "clear e this s = Inr (Obj this, fold clear_callback (this # rs) s)"
  using traverse_is_fold [OF preorder_of_resident [OF assms]] by (simp add: clear_def)

lemma resident_nodes_cong:
  "kids_of s' = kids_of s \<Longrightarrow> resident_nodes n s' this = resident_nodes n s this"
  by (simp add: resident_nodes_def)

lemma fold_clear_callback_props:
  fixes ns :: "oid list" and s :: state
  defines "s' \<equiv> fold clear_callback ns s"
  shows "(\<forall>a. klass (heap s' a) = klass (heap s a)
           \<and> parent (heap s' a) = parent (heap s a)
           \<and> children (heap s' a) = children (heap s a))"
    and "next_oid s' = next_oid s"
    and "kids_of s' = kids_of s"
    and "(\<forall>a. heap s' a =
           (if a \<in> set ns \<and> truthy (childrenCache (heap s a))
            then (heap s a)\<lparr>childrenCache := CacheNull\<rparr> else heap s a))"
    and "(\<forall>a \<in> set ns. \<not> truthy (childrenCache (heap s' a)))"
    and "trace s' = trace s @ map (request_of s) (filter (\<lambda>a. has_loadTexture (heap s a)) ns)"
proof -
  have h: "heap s' = (\<lambda>a. if a \<in> set ns then dropped (heap s a) else heap s a)"
    unfolding s'_def by (rule fold_clear_callback_heap)
  show "(\<forall>a. klass (heap s' a) = klass (heap s a)
           \<and> parent (heap s' a) = parent (heap s a)
           \<and> children (heap s' a) = children (heap s a))"
    unfolding h by (simp add: dropped_fields)
  show "next_oid s' = next_oid s"
    unfolding s'_def by (rule fold_clear_callback_next_oid)
  show "kids_of s' = kids_of s"
    unfolding s'_def by (rule kids_of_fold)
  show "(\<forall>a. heap s' a =
           (if a \<in> set ns \<and> truthy (childrenCache (heap s a))
            then (heap s a)\<lparr>childrenCache := CacheNull\<rparr> else heap s a))"
    unfolding h by (simp add: dropped_def)
  show "(\<forall>a \<in> set ns. \<not> truthy (childrenCache (heap s' a)))"
    unfolding h by (simp add: dropped_def)
  show "trace s' = trace s @ map (request_of s) (filter (\<lambda>a. has_loadTexture (heap s a)) ns)"
    unfolding s'_def by (rule fold_clear_callback_trace)
qed

subsection \<open>setRoot on numbers\<close>

lemma setRoot_unregistered:
  "\<not> Map_has mapModes m \<Longrightarrow> setRoot e this (Num m) s = Inl (ModeNotRegistered m, s)"
  by (simp add: setRoot_def)

lemma klass_Object3D_remove: "klass (heap (Object3D_remove p v s) a) = klass (heap s a)"
  by (simp add: Object3D_remove_def upd_def Let_def split: jsval.splits)

lemma next_oid_Object3D_remove: "next_oid (Object3D_remove p v s) = next_oid s"
  by (simp add: Object3D_remove_def upd_def Let_def split: jsval.splits)

lemma trace_Object3D_remove: "trace (Object3D_remove p v s) = trace s"
  by (simp add: Object3D_remove_def upd_def Let_def split: jsval.splits)

lemma setRoot_registered:
  assumes "Map_has mapModes m"
  shows "\<exists>s'. setRoot e this (Num m) s = Inl (TypeError, s')
     \<and> root (heap s' this) = Obj (next_oid s)
     \<and> klass (heap s' (next_oid s)) = NumberClass
     \<and> geometry (heap s' this) = Undefined
     \<and> next_oid s' = Suc (next_oid s)"
  using assms
  by (simp add: setRoot_def alloc_def Let_def upd_def static_BASE_SCALE_def
      static_BASE_GEOMETRY_def klass_Object3D_remove next_oid_Object3D_remove blank_def)

subsection \<open>Changing a provider\<close>

lemma kids_of_upd_provider: "kids_of (upd a (\<lambda>x. x\<lparr>provider := v\<rparr>) s) = kids_of s"
  by (simp add: kids_of_def upd_def fun_eq_iff)

lemma kids_of_upd_heightProvider: "kids_of (upd a (\<lambda>x. x\<lparr>heightProvider := v\<rparr>) s) = kids_of s"
  by (simp add: kids_of_def upd_def fun_eq_iff)

lemma setProvider_result:
  assumes "resident_nodes n s this = Some rs" and "n < stack_limit e"
    and "\<not> strict_eq p (provider (heap s this))"
  shows "setProvider e this p s =
     Inr (fold clear_callback (this # rs) (upd this (\<lambda>x. x\<lparr>provider := p\<rparr>) s))"
proof -
  have "resident_nodes n (upd this (\<lambda>x. x\<lparr>provider := p\<rparr>) s) this = Some rs"
    using assms(1) resident_nodes_cong [OF kids_of_upd_provider] by simp
  from clear_result [OF this assms(2)] show ?thesis
    using assms(3) by (simp add: setProvider_def)
qed

lemma setHeightProvider_result:
  assumes "resident_nodes n s this = Some rs" and "n < stack_limit e"
    and "\<not> strict_eq p (heightProvider (heap s this))"
  shows "setHeightProvider e this p s =
     Inr (fold clear_callback (this # rs) (upd this (\<lambda>x. x\<lparr>heightProvider := p\<rparr>) s))"
proof -
  have "resident_nodes n (upd this (\<lambda>x. x\<lparr>heightProvider := p\<rparr>) s) this = Some rs"
    using assms(1) resident_nodes_cong [OF kids_of_upd_heightProvider] by simp
  from clear_result [OF this assms(2)] show ?thesis
    using assms(3) by (simp add: setHeightProvider_def)
qed

lemma fold_clear_callback_fields:
  "klass (heap (fold clear_callback ns s) a) = klass (heap s a)"
  "parent (heap (fold clear_callback ns s) a) = parent (heap s a)"
  "children (heap (fold clear_callback ns s) a) = children (heap s a)"
  "provider (heap (fold clear_callback ns s) a) = provider (heap s a)"
  "heightProvider (heap (fold clear_callback ns s) a) = heightProvider (heap s a)"
  "mapView (heap (fold clear_callback ns s) a) = mapView (heap s a)"
  by (simp_all add: fold_clear_callback_heap dropped_fields)

subsection \<open>What a traversal never changes\<close>

lemma traverse_preserves_aux:
  fixes obs :: "state \<Rightarrow> 'b"
  shows "(\<forall>c s. obs (cb c s) = obs s) \<Longrightarrow> obs (state_after (traverse n cb a s)) = obs s"
    and "(\<forall>c s. obs (cb c s) = obs s) \<Longrightarrow>
         obs (state_after (traverse_children n cb cs s)) = obs s"
proof (induction n cb a s and n cb cs s rule: traverse_traverse_children.induct)
  case (1 callback a s)
  then show ?case by (simp add: state_after_def)
next
  case (2 n callback a s)
  then show ?case by (simp add: Let_def)
next
  case (3 n callback s)
  then show ?case by (simp add: state_after_def)
next
  case (4 n callback c cs s)
  show ?case
  proof (cases "traverse n callback c s")
    case (Inl err)
    then show ?thesis using "4.IH"(1) [OF "4.prems"] by simp
  next
    case (Inr s')
    then have "obs s' = obs s" using "4.IH"(1) [OF "4.prems"] by (simp add: state_after_def)
    then show ?thesis using "4.IH"(2) [OF Inr "4.prems"] Inr by simp
  qed
qed

lemma traverse_preserves:
  fixes obs :: "state \<Rightarrow> 'b"
  assumes "\<And>c s. obs (cb c s) = obs s"
  shows "obs (state_after (traverse n cb a s)) = obs s"
  using assms traverse_preserves_aux(1) [of obs cb n a s] by blast

lemma clear_callback_provider:
  "provider (heap (clear_callback c s) a) = provider (heap s a)"
  "heightProvider (heap (clear_callback c s) a) = heightProvider (heap s a)"
  by (simp_all add: clear_callback_heap dropped_fields)


lemma clear_provider:
  "clear e this s = Inr (v, s') \<Longrightarrow> provider (heap s' a) = provider (heap s a)"
  "clear e this s = Inr (v, s') \<Longrightarrow> heightProvider (heap s' a) = heightProvider (heap s a)"
  using traverse_preserves [of "\<lambda>s. provider (heap s a)" clear_callback "stack_limit e" this s]
    traverse_preserves [of "\<lambda>s. heightProvider (heap s a)" clear_callback "stack_limit e" this s]
  by (auto simp add: clear_def clear_callback_provider state_after_def split: sum.splits)

lemma setProvider_sets:
  "setProvider e this p s = Inr s' \<Longrightarrow> provider (heap s' this) = p"
  by (auto simp add: setProvider_def heap_upd strict_eq_def split: if_splits sum.splits dest: clear_provider(1) [where a = this])

lemma setHeightProvider_sets:
  "setHeightProvider e this p s = Inr s' \<Longrightarrow> heightProvider (heap s' this) = p"
  by (auto simp add: setHeightProvider_def heap_upd strict_eq_def split: if_splits sum.splits dest: clear_provider(2) [where a = this])

lemma example_resident: "resident_nodes 4 example_state 0 = Some [1, 2, 3, 4, 5]"
  by code_simp

subsection \<open>Frame facts for add and remove\<close>

lemma Object3D_remove_fields:
  "klass (heap (Object3D_remove p v s) a) = klass (heap s a)"
  "scale (heap (Object3D_remove p v s) a) = scale (heap s a)"
  "geometry (heap (Object3D_remove p v s) a) = geometry (heap s a)"
  "material (heap (Object3D_remove p v s) a) = material (heap s a)"
  "lod (heap (Object3D_remove p v s) a) = lod (heap s a)"
  "provider (heap (Object3D_remove p v s) a) = provider (heap s a)"
  "heightProvider (heap (Object3D_remove p v s) a) = heightProvider (heap s a)"
  "root (heap (Object3D_remove p v s) a) = root (heap s a)"
  "mapView (heap (Object3D_remove p v s) a) = mapView (heap s a)"
  "childrenCache (heap (Object3D_remove p v s) a) = childrenCache (heap s a)"
  by (simp_all add: Object3D_remove_def upd_def Let_def split: jsval.splits)

lemma next_oid_Object3D_add: "next_oid (Object3D_add p v s) = next_oid s"
  by (simp add: Object3D_add_def upd_def Let_def next_oid_Object3D_remove
      split: jsval.splits option.splits)

lemma trace_Object3D_add: "trace (Object3D_add p v s) = trace s"
  by (simp add: Object3D_add_def upd_def Let_def trace_Object3D_remove
      split: jsval.splits option.splits)

lemma Object3D_add_fields:
  "klass (heap (Object3D_add p v s) a) = klass (heap s a)"
  "scale (heap (Object3D_add p v s) a) = scale (heap s a)"
  "geometry (heap (Object3D_add p v s) a) = geometry (heap s a)"
  "material (heap (Object3D_add p v s) a) = material (heap s a)"
  "lod (heap (Object3D_add p v s) a) = lod (heap s a)"
  "provider (heap (Object3D_add p v s) a) = provider (heap s a)"
  "heightProvider (heap (Object3D_add p v s) a) = heightProvider (heap s a)"
  "root (heap (Object3D_add p v s) a) = root (heap s a)"
  "mapView (heap (Object3D_add p v s) a) = mapView (heap s a)"
  "childrenCache (heap (Object3D_add p v s) a) = childrenCache (heap s a)"
  by (simp_all add: Object3D_add_def upd_def Let_def Object3D_remove_fields
      split: jsval.splits option.splits)

subsection \<open>setRoot case by case\<close>

lemma detach_root_fields:
  "klass (heap (detach_root this s) a) = klass (heap s a)"
  "scale (heap (detach_root this s) a) = scale (heap s a)"
  "geometry (heap (detach_root this s) a) = geometry (heap s a)"
  "material (heap (detach_root this s) a) = material (heap s a)"
  "lod (heap (detach_root this s) a) = lod (heap s a)"
  "provider (heap (detach_root this s) a) = provider (heap s a)"
  "heightProvider (heap (detach_root this s) a) = heightProvider (heap s a)"
  "mapView (heap (detach_root this s) a) = mapView (heap s a)"
  "childrenCache (heap (detach_root this s) a) = childrenCache (heap s a)"
  "next_oid (detach_root this s) = next_oid s"
  "trace (detach_root this s) = trace s"
  by (simp_all add: detach_root_def heap_upd next_oid_upd trace_upd Object3D_remove_fields
      next_oid_Object3D_remove trace_Object3D_remove)

lemma setRoot_Obj:
  "setRoot e this (Obj r) s =
     (case static_BASE_SCALE e (klass (heap s r)) of
        None \<Rightarrow> Inl (TypeError, install_root e this r s)
      | Some v \<Rightarrow>
          Inr (Object3D_add this (Obj r)
                 (upd r (\<lambda>x. x\<lparr>mapView := Obj this\<rparr>)
                    (upd this (\<lambda>x. x\<lparr>scale := v\<rparr>) (install_root e this r s)))))"
proof -
  show ?thesis
    unfolding setRoot_def install_root_def
    by (simp add: Let_def heap_upd detach_root_def [symmetric] detach_root_fields
        split: option.splits)
qed

lemma setRoot_Undefined:
  "setRoot e this Undefined s =
     Inl (TypeError, upd this (\<lambda>x. x\<lparr>root := Undefined\<rparr>) (detach_root this s))"
  unfolding setRoot_def
  by (simp add: Let_def heap_upd detach_root_def [symmetric])

lemma setRoot_Null:
  "setRoot e this Null s =
     Inl (TypeError, upd this (\<lambda>x. x\<lparr>root := Null\<rparr>) (detach_root this s))"
  unfolding setRoot_def
  by (simp add: Let_def heap_upd detach_root_def [symmetric])

lemma setRoot_Num_registered:
  assumes "Map_has mapModes m"
  shows "setRoot e this (Num m) s =
     Inl (TypeError,
       upd this (\<lambda>x. x\<lparr>geometry := Undefined\<rparr>)
         (upd this (\<lambda>x. x\<lparr>root := Obj (next_oid s)\<rparr>)
            (detach_root this (snd (alloc (blank NumberClass) s)))))"
  using assms unfolding setRoot_def
  by (simp add: Let_def heap_upd detach_root_def [symmetric] detach_root_fields alloc_def
      static_BASE_SCALE_def static_BASE_GEOMETRY_def blank_def)


lemma setRoot_Inr_cases:
  assumes "setRoot e this r s = Inr s'"
  obtains a v where "r = Obj a" and "static_BASE_SCALE e (klass (heap s a)) = Some v"
    and "s' = Object3D_add this (Obj a)
                 (upd a (\<lambda>x. x\<lparr>mapView := Obj this\<rparr>)
                    (upd this (\<lambda>x. x\<lparr>scale := v\<rparr>) (install_root e this a s)))"
proof (cases r)
  case Undefined
  then show ?thesis using assms by (simp add: setRoot_Undefined)
next
  case Null
  then show ?thesis using assms by (simp add: setRoot_Null)
next
  case (Num m)
  then show ?thesis using assms
    by (cases "Map_has mapModes m") (simp_all add: setRoot_Num_registered setRoot_unregistered)
next
  case (Obj a)
  then show ?thesis using assms that
    by (auto simp add: setRoot_Obj split: option.splits)
qed

lemma setRoot_frame:
  assumes "setRoot e this r s = Inr s'"
  shows "klass (heap s' a) = klass (heap s a)"
    and "material (heap s' a) = material (heap s a)"
    and "lod (heap s' a) = lod (heap s a)"
    and "provider (heap s' a) = provider (heap s a)"
    and "heightProvider (heap s' a) = heightProvider (heap s a)"
    and "childrenCache (heap s' a) = childrenCache (heap s a)"
    and "next_oid s' = next_oid s"
proof -
  from assms obtain b v where
    s': "s' = Object3D_add this (Obj b)
                 (upd b (\<lambda>x. x\<lparr>mapView := Obj this\<rparr>)
                    (upd this (\<lambda>x. x\<lparr>scale := v\<rparr>) (install_root e this b s)))"
    by (rule setRoot_Inr_cases)
  show "klass (heap s' a) = klass (heap s a)"
    and "material (heap s' a) = material (heap s a)"
    and "lod (heap s' a) = lod (heap s a)"
    and "provider (heap s' a) = provider (heap s a)"
    and "heightProvider (heap s' a) = heightProvider (heap s a)"
    and "childrenCache (heap s' a) = childrenCache (heap s a)"
    and "next_oid s' = next_oid s"
    unfolding s' install_root_def
    by (simp_all add: Object3D_add_fields next_oid_Object3D_add heap_upd next_oid_upd
        detach_root_fields)
qed

subsection \<open>Calls of updateLOD\<close>







lemma trace_alloc: "trace (snd (alloc ob s)) = trace s"
  by (simp add: alloc_def)

lemma MapView_constructor_fields:
  "MapView_constructor e r p hp s =
     (case setRoot e (fst (MapView_fields r p hp s)) r (snd (MapView_fields r p hp s)) of
        Inl err \<Rightarrow> Inl err
      | Inr s' \<Rightarrow> Inr (fst (MapView_fields r p hp s), s'))"
  by (simp only: MapView_constructor_def MapView_fields_def Let_def split_beta fst_conv snd_conv)

lemma MapView_fields_this: "fst (MapView_fields r p hp s) = Suc (Suc (next_oid s))"
  by (simp add: MapView_fields_def Let_def split_beta alloc_def)


lemma MapView_fields_lod:
  "lod (heap (snd (MapView_fields r p hp s)) (Suc (Suc (next_oid s)))) = Obj (Suc (Suc (Suc (next_oid s))))"
  "klass (heap (snd (MapView_fields r p hp s)) (Suc (Suc (Suc (next_oid s))))) = LODRaycast"
  by (simp_all add: MapView_fields_def Let_def split_beta alloc_def upd_def blank_def)

lemma MapView_fields_heightProvider:
  "heightProvider (heap (snd (MapView_fields r p hp s)) (Suc (Suc (next_oid s)))) =
     (if hp \<noteq> Undefined then hp else Null)"
  by (simp add: MapView_fields_def Let_def split_beta alloc_def upd_def blank_def)

lemma MapView_fields_provider_given:
  "p \<noteq> Undefined \<Longrightarrow>
   provider (heap (snd (MapView_fields r p hp s)) (Suc (Suc (next_oid s)))) = p"
  by (simp add: MapView_fields_def Let_def split_beta alloc_def upd_def blank_def)

lemma MapView_fields_provider_default:
  "provider (heap (snd (MapView_fields r Undefined hp s)) (Suc (Suc (next_oid s)))) =
     Obj (Suc (Suc (Suc (Suc (next_oid s)))))"
  "klass (heap (snd (MapView_fields r Undefined hp s)) (Suc (Suc (Suc (Suc (next_oid s)))))) =
     OpenStreetMapsProvider"
  by (simp_all add: MapView_fields_def Let_def split_beta alloc_def upd_def blank_def)


lemma MapView_fields_klass:
  "klass (heap (snd (MapView_fields r p hp s)) (Suc (Suc (next_oid s)))) = MapViewClass"
  by (simp add: MapView_fields_def Let_def split_beta alloc_def upd_def blank_def)

lemma MapView_fields_klass_old:
  "a < next_oid s \<Longrightarrow> klass (heap (snd (MapView_fields r p hp s)) a) = klass (heap s a)"
  by (simp add: MapView_fields_def Let_def split_beta alloc_def upd_def)

subsection \<open>Children and parents under add and remove\<close>

lemma remove1_not_in: "c \<notin> set cs \<Longrightarrow> remove1 c cs = cs"
  by (induction cs) auto

lemma Object3D_remove_children:
  "children (heap (Object3D_remove p (Obj c) s) a) =
     (if a = p then remove1 c (children (heap s p)) else children (heap s a))"
  by (simp add: Object3D_remove_def upd_def Let_def remove1_not_in)

lemma Object3D_remove_parent:
  "parent (heap (Object3D_remove p (Obj c) s) a) =
     (if a = c \<and> c \<in> set (children (heap s p)) then None else parent (heap s a))"
  by (simp add: Object3D_remove_def upd_def Let_def)

lemma Object3D_add_children:
  assumes "r \<noteq> this" and "isObject3D (klass (heap s r))"
  shows "children (heap (Object3D_add this (Obj r) s) this) =
     (if parent (heap s r) = Some this then remove1 r (children (heap s this))
      else children (heap s this)) @ [r]"
  using assms
  by (auto simp add: Object3D_add_def upd_def Let_def Object3D_remove_children
      split: option.splits)

lemma Object3D_add_parent:
  assumes "r \<noteq> this" and "isObject3D (klass (heap s r))"
  shows "parent (heap (Object3D_add this (Obj r) s) a) =
     (if a = r then Some this else parent (heap s a))"
  using assms
  by (auto simp add: Object3D_add_def upd_def Let_def Object3D_remove_parent
      split: option.splits)

lemma Object3D_remove_no_object:
  "Object3D_remove p Undefined s = s" "Object3D_remove p Null s = s"
  "Object3D_remove p (Num m) s = s"
  by (simp_all add: Object3D_remove_def)

lemma detach_root_children:
  "children (heap (detach_root this s) a) =
     (if a = this then
        (case root (heap s this) of
           Obj q \<Rightarrow> remove1 q (children (heap s this))
         | _ \<Rightarrow> children (heap s this))
      else children (heap s a))"
  by (cases "root (heap s this)")
    (simp_all add: detach_root_def heap_upd Object3D_remove_children Object3D_remove_no_object)

lemma detach_root_parent:
  "parent (heap (detach_root this s) a) =
     (if root (heap s this) = Obj a \<and> a \<in> set (children (heap s this)) then None
      else parent (heap s a))"
  by (cases "root (heap s this)")
    (auto simp add: detach_root_def heap_upd Object3D_remove_parent Object3D_remove_no_object)

lemma install_root_fields:
  "klass (heap (install_root e this r s) a) = klass (heap s a)"
  "parent (heap (install_root e this r s) a) = parent (heap (detach_root this s) a)"
  "children (heap (install_root e this r s) a) = children (heap (detach_root this s) a)"
  "scale (heap (install_root e this r s) a) = scale (heap s a)"
  "material (heap (install_root e this r s) a) = material (heap s a)"
  "lod (heap (install_root e this r s) a) = lod (heap s a)"
  "provider (heap (install_root e this r s) a) = provider (heap s a)"
  "heightProvider (heap (install_root e this r s) a) = heightProvider (heap s a)"
  "mapView (heap (install_root e this r s) a) = mapView (heap s a)"
  "childrenCache (heap (install_root e this r s) a) = childrenCache (heap s a)"
  "root (heap (install_root e this r s) this) = Obj r"
  "geometry (heap (install_root e this r s) this) = static_BASE_GEOMETRY e (klass (heap s r))"
  "next_oid (install_root e this r s) = next_oid s"
  "trace (install_root e this r s) = trace s"
  by (simp_all add: install_root_def heap_upd next_oid_upd trace_upd detach_root_fields)

lemma set_remove1_subset': "x \<notin> set cs \<Longrightarrow> x \<notin> set (remove1 y cs)"
  using set_remove1_subset by fastforce

lemma isObject3D_node: "isMapNode k \<Longrightarrow> isObject3D k"
  by (cases k) simp_all

lemma Object3D_add_children_other:
  assumes "r \<noteq> this" and "isObject3D (klass (heap s r))" and "a \<noteq> this"
  shows "children (heap (Object3D_add this (Obj r) s) a) =
     (if parent (heap s r) = Some a then remove1 r (children (heap s a))
      else children (heap s a))"
  using assms
  by (auto simp add: Object3D_add_def upd_def Let_def Object3D_remove_children
      split: option.splits)

lemma setRoot_node_state:
  assumes node: "isMapNode (klass (heap s r))"
    and sc: "BASE_SCALE e (klass (heap s r)) = Some v"
    and ne: "r \<noteq> this"
  shows "\<exists>s'. setRoot e this (Obj r) s = Inr s'
     \<and> (\<forall>a. root (heap s' a) = (if a = this then Obj r else root (heap s a)))
     \<and> (\<forall>a. geometry (heap s' a) =
           (if a = this then BASE_GEOMETRY e (klass (heap s r)) else geometry (heap s a)))
     \<and> (\<forall>a. scale (heap s' a) = (if a = this then v else scale (heap s a)))
     \<and> (\<forall>a. mapView (heap s' a) = (if a = r then Obj this else mapView (heap s a)))
     \<and> (\<forall>a. parent (heap s' a) =
           (if a = r then Some this
            else if root (heap s this) = Obj a \<and> a \<in> set (children (heap s this)) then None
            else parent (heap s a)))
     \<and> (\<forall>a. children (heap s' a) =
           (let cs1 = (case root (heap s this) of
                         Obj q \<Rightarrow> remove1 q (children (heap s this))
                       | _ \<Rightarrow> children (heap s this));
                pr = (if root (heap s this) = Obj r \<and> r \<in> set (children (heap s this))
                      then None else parent (heap s r))
            in if a = this then (if pr = Some this then remove1 r cs1 else cs1) @ [r]
               else if pr = Some a then remove1 r (children (heap s a))
               else children (heap s a)))
     \<and> (\<forall>a. klass (heap s' a) = klass (heap s a)
           \<and> material (heap s' a) = material (heap s a)
           \<and> lod (heap s' a) = lod (heap s a)
           \<and> provider (heap s' a) = provider (heap s a)
           \<and> heightProvider (heap s' a) = heightProvider (heap s a)
           \<and> childrenCache (heap s' a) = childrenCache (heap s a))
     \<and> next_oid s' = next_oid s
     \<and> trace s' = trace s"
proof -
  define s4 where "s4 = upd r (\<lambda>x. x\<lparr>mapView := Obj this\<rparr>)
                    (upd this (\<lambda>x. x\<lparr>scale := v\<rparr>) (install_root e this r s))"
  define s' where "s' = Object3D_add this (Obj r) s4"
  have bs: "static_BASE_SCALE e (klass (heap s r)) = Some v"
    and bg: "static_BASE_GEOMETRY e (klass (heap s r)) = BASE_GEOMETRY e (klass (heap s r))"
    using node sc by (simp_all add: static_BASE_SCALE_def static_BASE_GEOMETRY_def)
  have r: "setRoot e this (Obj r) s = Inr s'"
    by (simp add: setRoot_Obj bs s'_def s4_def)
  have "klass (heap s4 r) = klass (heap s r)"
    unfolding s4_def by (simp add: heap_upd install_root_fields)
  then have k4: "isObject3D (klass (heap s4 r))"
    using node by (simp add: isObject3D_node)
  have c4: "\<And>a. children (heap s4 a) = children (heap (detach_root this s) a)"
    and p4: "\<And>a. parent (heap s4 a) = parent (heap (detach_root this s) a)"
    unfolding s4_def by (simp_all add: heap_upd install_root_fields)
  have pa: "\<And>a. parent (heap s' a) = (if a = r then Some this else parent (heap s4 a))"
    unfolding s'_def using ne k4 by (rule Object3D_add_parent)
  have f_root: "\<forall>a. root (heap s' a) = (if a = this then Obj r else root (heap s a))"
    unfolding s'_def s4_def install_root_def using ne
    by (simp add: Object3D_add_fields heap_upd detach_root_def Object3D_remove_fields)
  have f_geo: "\<forall>a. geometry (heap s' a) =
           (if a = this then BASE_GEOMETRY e (klass (heap s r)) else geometry (heap s a))"
    unfolding s'_def s4_def install_root_def using ne
    by (simp add: Object3D_add_fields heap_upd detach_root_fields bg)
  have f_scale: "\<forall>a. scale (heap s' a) = (if a = this then v else scale (heap s a))"
    unfolding s'_def s4_def using ne
    by (simp add: Object3D_add_fields heap_upd install_root_fields)
  have f_mv: "\<forall>a. mapView (heap s' a) = (if a = r then Obj this else mapView (heap s a))"
    unfolding s'_def s4_def
    by (simp add: Object3D_add_fields heap_upd install_root_fields)
  have f_par: "\<forall>a. parent (heap s' a) =
           (if a = r then Some this
            else if root (heap s this) = Obj a \<and> a \<in> set (children (heap s this)) then None
            else parent (heap s a))"
    by (simp add: pa p4 detach_root_parent)
  have f_ch: "\<forall>a. children (heap s' a) =
           (let cs1 = (case root (heap s this) of
                         Obj q \<Rightarrow> remove1 q (children (heap s this))
                       | _ \<Rightarrow> children (heap s this));
                pr = (if root (heap s this) = Obj r \<and> r \<in> set (children (heap s this))
                      then None else parent (heap s r))
            in if a = this then (if pr = Some this then remove1 r cs1 else cs1) @ [r]
               else if pr = Some a then remove1 r (children (heap s a))
               else children (heap s a))"
  proof
    fix a
    show "children (heap s' a) =
           (let cs1 = (case root (heap s this) of
                         Obj q \<Rightarrow> remove1 q (children (heap s this))
                       | _ \<Rightarrow> children (heap s this));
                pr = (if root (heap s this) = Obj r \<and> r \<in> set (children (heap s this))
                      then None else parent (heap s r))
            in if a = this then (if pr = Some this then remove1 r cs1 else cs1) @ [r]
               else if pr = Some a then remove1 r (children (heap s a))
               else children (heap s a))"
    proof (cases "a = this")
      case True
      have "children (heap s' this) =
         (if parent (heap s4 r) = Some this then remove1 r (children (heap s4 this))
          else children (heap s4 this)) @ [r]"
        unfolding s'_def using ne k4 by (rule Object3D_add_children)
      then show ?thesis
        using True by (simp add: c4 p4 detach_root_children detach_root_parent Let_def)
    next
      case False
      have "children (heap s' a) =
         (if parent (heap s4 r) = Some a then remove1 r (children (heap s4 a))
          else children (heap s4 a))"
        unfolding s'_def using ne k4 False by (rule Object3D_add_children_other)
      then show ?thesis
        using False by (simp add: c4 p4 detach_root_children detach_root_parent Let_def)
    qed
  qed
  have f_same: "\<forall>a. klass (heap s' a) = klass (heap s a)
           \<and> material (heap s' a) = material (heap s a)
           \<and> lod (heap s' a) = lod (heap s a)
           \<and> provider (heap s' a) = provider (heap s a)
           \<and> heightProvider (heap s' a) = heightProvider (heap s a)
           \<and> childrenCache (heap s' a) = childrenCache (heap s a)"
    unfolding s'_def s4_def
    by (simp add: Object3D_add_fields heap_upd install_root_fields)
  have f_next: "next_oid s' = next_oid s"
    unfolding s'_def s4_def
    by (simp add: next_oid_Object3D_add next_oid_upd install_root_fields)
  have f_trace: "trace s' = trace s"
    unfolding s'_def s4_def
    by (simp add: trace_Object3D_add trace_upd install_root_fields)
  show ?thesis
    apply (rule exI [of _ s'])
    apply (intro conjI)
             apply (rule r)
            apply (rule f_root)
           apply (rule f_geo)
          apply (rule f_scale)
         apply (rule f_mv)
        apply (rule f_par)
       apply (rule f_ch)
      apply (rule f_same)
     apply (rule f_next)
    apply (rule f_trace)
    done
qed

subsection \<open>A frame of the renderer\<close>









section \<open>Claims\<close>

text \<open>
  C1 as the code has it: \<open>setProvider\<close> with a provider distinct from the current one
  stores it and then runs \<open>clear\<close>. When the tree below the view is finite and within
  the call stack, the call returns, and the state after it is the state before it but
  for three things: the view holds the new provider; the children cache of every
  visited object (the view and its resident nodes) that held an array is null; and
  every visited node has re-requested its texture, in the order of the traversal, a
  node that points back to this view from the new provider. So the resident nodes are
  the same as before: no object changes class, parent or children, none is created.
  \<open>setHeightProvider\<close> does the same with the height provider, and the requests of the
  nodes of this view name the new height provider.
\<close>

theorem setProvider_reloads_and_keeps_tree:
  assumes "resident_nodes n s this = Some rs" and "n < stack_limit e"
  shows "(\<not> strict_eq p (provider (heap s this)) \<longrightarrow>
          (\<exists>s'. setProvider e this p s = Inr s'
             \<and> provider (heap s' this) = p
             \<and> resident_nodes n s' this = Some rs
             \<and> (\<forall>a. heap s' a =
                   (let x = (if a = this then (heap s a)\<lparr>provider := p\<rparr> else heap s a)
                    in if a \<in> set (this # rs) \<and> truthy (childrenCache x)
                       then x\<lparr>childrenCache := CacheNull\<rparr> else x))
             \<and> (\<forall>a \<in> set (this # rs). \<not> truthy (childrenCache (heap s' a)))
             \<and> (\<forall>a. klass (heap s' a) = klass (heap s a)
                   \<and> parent (heap s' a) = parent (heap s a)
                   \<and> children (heap s' a) = children (heap s a))
             \<and> next_oid s' = next_oid s
             \<and> trace s' = trace s @
                   map (\<lambda>a. TextureRequested a
                              (case mapView (heap s a) of
                                 Obj v \<Rightarrow> if v = this then p else provider (heap s v)
                               | _ \<Rightarrow> Undefined)
                              (case mapView (heap s a) of
                                 Obj v \<Rightarrow> heightProvider (heap s v)
                               | _ \<Rightarrow> Undefined))
                     (filter (\<lambda>a. has_loadTexture (heap s a)) (this # rs))))
       \<and> (\<not> strict_eq hp (heightProvider (heap s this)) \<longrightarrow>
          (\<exists>s'. setHeightProvider e this hp s = Inr s'
             \<and> heightProvider (heap s' this) = hp
             \<and> resident_nodes n s' this = Some rs
             \<and> (\<forall>a. heap s' a =
                   (let x = (if a = this then (heap s a)\<lparr>heightProvider := hp\<rparr> else heap s a)
                    in if a \<in> set (this # rs) \<and> truthy (childrenCache x)
                       then x\<lparr>childrenCache := CacheNull\<rparr> else x))
             \<and> (\<forall>a \<in> set (this # rs). \<not> truthy (childrenCache (heap s' a)))
             \<and> (\<forall>a. klass (heap s' a) = klass (heap s a)
                   \<and> parent (heap s' a) = parent (heap s a)
                   \<and> children (heap s' a) = children (heap s a))
             \<and> next_oid s' = next_oid s
             \<and> trace s' = trace s @
                   map (\<lambda>a. TextureRequested a
                              (case mapView (heap s a) of
                                 Obj v \<Rightarrow> provider (heap s v)
                               | _ \<Rightarrow> Undefined)
                              (case mapView (heap s a) of
                                 Obj v \<Rightarrow> if v = this then hp else heightProvider (heap s v)
                               | _ \<Rightarrow> Undefined))
                     (filter (\<lambda>a. has_loadTexture (heap s a)) (this # rs))))"
proof (intro conjI impI)
  assume d: "\<not> strict_eq p (provider (heap s this))"
  define ns where "ns = this # rs"
  define s1 where "s1 = upd this (\<lambda>x. x\<lparr>provider := p\<rparr>) s"
  define s' where "s' = fold clear_callback ns s1"
  note props = fold_clear_callback_props [of ns s1, folded s'_def]
  have h1: "\<And>a. heap s1 a = (if a = this then (heap s a)\<lparr>provider := p\<rparr> else heap s a)"
    unfolding s1_def by (simp add: heap_upd)
  have r: "setProvider e this p s = Inr s'"
    unfolding s'_def s1_def ns_def using assms d by (rule setProvider_result)
  have k: "kids_of s' = kids_of s"
    unfolding props(3) s1_def by (rule kids_of_upd_provider)
  have res: "resident_nodes n s' this = Some rs"
    using assms(1) resident_nodes_cong [OF k] by simp
  have hp': "\<forall>a. heap s' a =
                   (let x = (if a = this then (heap s a)\<lparr>provider := p\<rparr> else heap s a)
                    in if a \<in> set ns \<and> truthy (childrenCache x)
                       then x\<lparr>childrenCache := CacheNull\<rparr> else x)"
    using props(4) by (simp add: h1 Let_def)
  have pr: "provider (heap s' this) = p"
    using hp' by (simp add: Let_def)
  have shape: "\<forall>a. klass (heap s' a) = klass (heap s a)
                   \<and> parent (heap s' a) = parent (heap s a)
                   \<and> children (heap s' a) = children (heap s a)"
    using props(1) by (simp add: h1)
  have nx: "next_oid s' = next_oid s"
    using props(2) by (simp add: s1_def next_oid_upd)
  have f: "filter (\<lambda>a. has_loadTexture (heap s1 a)) ns = filter (\<lambda>a. has_loadTexture (heap s a)) ns"
    by (rule filter_cong) (simp_all add: h1 has_loadTexture_def)
  have m: "request_of s1 = (\<lambda>a. TextureRequested a
                              (case mapView (heap s a) of
                                 Obj v \<Rightarrow> if v = this then p else provider (heap s v)
                               | _ \<Rightarrow> Undefined)
                              (case mapView (heap s a) of
                                 Obj v \<Rightarrow> heightProvider (heap s v)
                               | _ \<Rightarrow> Undefined))"
    by (auto simp add: request_of_def h1 fun_eq_iff split: jsval.splits)
  have tr: "trace s' = trace s @
                   map (\<lambda>a. TextureRequested a
                              (case mapView (heap s a) of
                                 Obj v \<Rightarrow> if v = this then p else provider (heap s v)
                               | _ \<Rightarrow> Undefined)
                              (case mapView (heap s a) of
                                 Obj v \<Rightarrow> heightProvider (heap s v)
                               | _ \<Rightarrow> Undefined))
                     (filter (\<lambda>a. has_loadTexture (heap s a)) ns)"
    unfolding props(6) f m by (simp add: s1_def trace_upd)
  show "\<exists>s'. setProvider e this p s = Inr s'
             \<and> provider (heap s' this) = p
             \<and> resident_nodes n s' this = Some rs
             \<and> (\<forall>a. heap s' a =
                   (let x = (if a = this then (heap s a)\<lparr>provider := p\<rparr> else heap s a)
                    in if a \<in> set (this # rs) \<and> truthy (childrenCache x)
                       then x\<lparr>childrenCache := CacheNull\<rparr> else x))
             \<and> (\<forall>a \<in> set (this # rs). \<not> truthy (childrenCache (heap s' a)))
             \<and> (\<forall>a. klass (heap s' a) = klass (heap s a)
                   \<and> parent (heap s' a) = parent (heap s a)
                   \<and> children (heap s' a) = children (heap s a))
             \<and> next_oid s' = next_oid s
             \<and> trace s' = trace s @
                   map (\<lambda>a. TextureRequested a
                              (case mapView (heap s a) of
                                 Obj v \<Rightarrow> if v = this then p else provider (heap s v)
                               | _ \<Rightarrow> Undefined)
                              (case mapView (heap s a) of
                                 Obj v \<Rightarrow> heightProvider (heap s v)
                               | _ \<Rightarrow> Undefined))
                     (filter (\<lambda>a. has_loadTexture (heap s a)) (this # rs))"
    unfolding ns_def [symmetric]
    apply (rule exI [of _ s'])
    apply (intro conjI)
           apply (rule r)
          apply (rule pr)
         apply (rule res)
        apply (rule hp')
       apply (rule props(5))
      apply (rule shape)
     apply (rule nx)
    apply (rule tr)
    done
next
  assume d: "\<not> strict_eq hp (heightProvider (heap s this))"
  define ns where "ns = this # rs"
  define s1 where "s1 = upd this (\<lambda>x. x\<lparr>heightProvider := hp\<rparr>) s"
  define s' where "s' = fold clear_callback ns s1"
  note props = fold_clear_callback_props [of ns s1, folded s'_def]
  have h1: "\<And>a. heap s1 a = (if a = this then (heap s a)\<lparr>heightProvider := hp\<rparr> else heap s a)"
    unfolding s1_def by (simp add: heap_upd)
  have r: "setHeightProvider e this hp s = Inr s'"
    unfolding s'_def s1_def ns_def using assms d by (rule setHeightProvider_result)
  have k: "kids_of s' = kids_of s"
    unfolding props(3) s1_def by (rule kids_of_upd_heightProvider)
  have res: "resident_nodes n s' this = Some rs"
    using assms(1) resident_nodes_cong [OF k] by simp
  have hp': "\<forall>a. heap s' a =
                   (let x = (if a = this then (heap s a)\<lparr>heightProvider := hp\<rparr> else heap s a)
                    in if a \<in> set ns \<and> truthy (childrenCache x)
                       then x\<lparr>childrenCache := CacheNull\<rparr> else x)"
    using props(4) by (simp add: h1 Let_def)
  have pr: "heightProvider (heap s' this) = hp"
    using hp' by (simp add: Let_def)
  have shape: "\<forall>a. klass (heap s' a) = klass (heap s a)
                   \<and> parent (heap s' a) = parent (heap s a)
                   \<and> children (heap s' a) = children (heap s a)"
    using props(1) by (simp add: h1)
  have nx: "next_oid s' = next_oid s"
    using props(2) by (simp add: s1_def next_oid_upd)
  have f: "filter (\<lambda>a. has_loadTexture (heap s1 a)) ns = filter (\<lambda>a. has_loadTexture (heap s a)) ns"
    by (rule filter_cong) (simp_all add: h1 has_loadTexture_def)
  have m: "request_of s1 = (\<lambda>a. TextureRequested a
                              (case mapView (heap s a) of
                                 Obj v \<Rightarrow> provider (heap s v)
                               | _ \<Rightarrow> Undefined)
                              (case mapView (heap s a) of
                                 Obj v \<Rightarrow> if v = this then hp else heightProvider (heap s v)
                               | _ \<Rightarrow> Undefined))"
    by (auto simp add: request_of_def h1 fun_eq_iff split: jsval.splits)
  have tr: "trace s' = trace s @
                   map (\<lambda>a. TextureRequested a
                              (case mapView (heap s a) of
                                 Obj v \<Rightarrow> provider (heap s v)
                               | _ \<Rightarrow> Undefined)
                              (case mapView (heap s a) of
                                 Obj v \<Rightarrow> if v = this then hp else heightProvider (heap s v)
                               | _ \<Rightarrow> Undefined))
                     (filter (\<lambda>a. has_loadTexture (heap s a)) ns)"
    unfolding props(6) f m by (simp add: s1_def trace_upd)
  show "\<exists>s'. setHeightProvider e this hp s = Inr s'
             \<and> heightProvider (heap s' this) = hp
             \<and> resident_nodes n s' this = Some rs
             \<and> (\<forall>a. heap s' a =
                   (let x = (if a = this then (heap s a)\<lparr>heightProvider := hp\<rparr> else heap s a)
                    in if a \<in> set (this # rs) \<and> truthy (childrenCache x)
                       then x\<lparr>childrenCache := CacheNull\<rparr> else x))
             \<and> (\<forall>a \<in> set (this # rs). \<not> truthy (childrenCache (heap s' a)))
             \<and> (\<forall>a. klass (heap s' a) = klass (heap s a)
                   \<and> parent (heap s' a) = parent (heap s a)
                   \<and> children (heap s' a) = children (heap s a))
             \<and> next_oid s' = next_oid s
             \<and> trace s' = trace s @
                   map (\<lambda>a. TextureRequested a
                              (case mapView (heap s a) of
                                 Obj v \<Rightarrow> provider (heap s v)
                               | _ \<Rightarrow> Undefined)
                              (case mapView (heap s a) of
                                 Obj v \<Rightarrow> if v = this then hp else heightProvider (heap s v)
                               | _ \<Rightarrow> Undefined))
                     (filter (\<lambda>a. has_loadTexture (heap s a)) (this # rs))"
    unfolding ns_def [symmetric]
    apply (rule exI [of _ s'])
    apply (intro conjI)
           apply (rule r)
          apply (rule pr)
         apply (rule res)
        apply (rule hp')
       apply (rule props(5))
      apply (rule shape)
     apply (rule nx)
    apply (rule tr)
    done
qed

text \<open>
  C1 as stated fails: on the view with five resident nodes, \<open>setProvider\<close> with a new
  provider returns and the same five nodes are resident afterwards, not none.
\<close>

theorem setProvider_keeps_resident_nodes_counterexample:
  "\<not> strict_eq (Obj 15) (provider (heap example_state 0))
   \<and> returned (setProvider example_env 0 (Obj 15) example_state)
   \<and> resident_nodes 4 example_state 0 = Some [1, 2, 3, 4, 5]
   \<and> resident_nodes 4 (state_after (setProvider example_env 0 (Obj 15) example_state)) 0
       = Some [1, 2, 3, 4, 5]"
  by code_simp

theorem setProvider_reloads_and_keeps_tree_witness:
  "resident_nodes 4 example_state 0 = Some [1, 2, 3, 4, 5]
   \<and> 4 < stack_limit example_env
   \<and> \<not> strict_eq (Obj 15) (provider (heap example_state 0))
   \<and> \<not> strict_eq (Obj 16) (heightProvider (heap example_state 0))
   \<and> (\<exists>s'. setProvider example_env 0 (Obj 15) example_state = Inr s'
         \<and> provider (heap s' 0) = Obj 15
         \<and> resident_nodes 4 s' 0 = Some [1, 2, 3, 4, 5]
         \<and> childrenCache (heap s' 2) = CacheNull
         \<and> trace s' = [TextureRequested 1 (Obj 15) Null, TextureRequested 2 (Obj 15) Null,
             TextureRequested 3 (Obj 15) Null, TextureRequested 4 (Obj 15) Null,
             TextureRequested 5 (Obj 15) Null])
   \<and> (\<exists>s'. setHeightProvider example_env 0 (Obj 16) example_state = Inr s'
         \<and> heightProvider (heap s' 0) = Obj 16
         \<and> resident_nodes 4 s' 0 = Some [1, 2, 3, 4, 5]
         \<and> childrenCache (heap s' 2) = CacheNull
         \<and> trace s' = [TextureRequested 1 (Obj 10) (Obj 16), TextureRequested 2 (Obj 10) (Obj 16),
             TextureRequested 3 (Obj 10) (Obj 16), TextureRequested 4 (Obj 10) (Obj 16),
             TextureRequested 5 (Obj 10) (Obj 16)])"
proof -
  have h1: "resident_nodes 4 example_state 0 = Some [1, 2, 3, 4, 5]"
    by (rule example_resident)
  have h2: "4 < stack_limit example_env"
    by (simp add: example_env_def)
  have h3: "\<not> strict_eq (Obj 15) (provider (heap example_state 0))"
    by (simp add: strict_eq_def example_state_def example_view_def)
  have h4: "\<not> strict_eq (Obj 16) (heightProvider (heap example_state 0))"
    by (simp add: strict_eq_def example_state_def example_view_def)
  note main = setProvider_reloads_and_keeps_tree [OF h1 h2, of "Obj 15" "Obj 16"]
  from main h3 obtain s' where
    r: "setProvider example_env 0 (Obj 15) example_state = Inr s'" and
    pr: "provider (heap s' 0) = Obj 15" and
    res: "resident_nodes 4 s' 0 = Some [1, 2, 3, 4, 5]" and
    fa: "\<forall>a \<in> set [0, 1, 2, 3, 4, 5]. \<not> truthy (childrenCache (heap s' a))" and
    hp: "\<forall>a. heap s' a =
           (let x = (if a = 0 then (heap example_state a)\<lparr>provider := Obj 15\<rparr>
                     else heap example_state a)
            in if a \<in> set [0, 1, 2, 3, 4, 5] \<and> truthy (childrenCache x)
               then x\<lparr>childrenCache := CacheNull\<rparr> else x)" and
    tr: "trace s' = trace example_state @
           map (\<lambda>a. TextureRequested a
                      (case mapView (heap example_state a) of
                         Obj v \<Rightarrow> if v = 0 then Obj 15 else provider (heap example_state v)
                       | _ \<Rightarrow> Undefined)
                      (case mapView (heap example_state a) of
                         Obj v \<Rightarrow> heightProvider (heap example_state v)
                       | _ \<Rightarrow> Undefined))
             (filter (\<lambda>a. has_loadTexture (heap example_state a)) [0, 1, 2, 3, 4, 5])"
    by blast
  have c: "childrenCache (heap s' 2) = CacheNull"
    using hp by (simp add: example_state_def map_node_def blank_def)
  have t: "trace s' = [TextureRequested 1 (Obj 15) Null, TextureRequested 2 (Obj 15) Null,
             TextureRequested 3 (Obj 15) Null, TextureRequested 4 (Obj 15) Null,
             TextureRequested 5 (Obj 15) Null]"
    unfolding tr
    by (simp add: example_state_def example_view_def map_node_def blank_def has_loadTexture_def)
  from main h4 obtain s'' where
    r2: "setHeightProvider example_env 0 (Obj 16) example_state = Inr s''" and
    pr2: "heightProvider (heap s'' 0) = Obj 16" and
    res2: "resident_nodes 4 s'' 0 = Some [1, 2, 3, 4, 5]" and
    hp2: "\<forall>a. heap s'' a =
           (let x = (if a = 0 then (heap example_state a)\<lparr>heightProvider := Obj 16\<rparr>
                     else heap example_state a)
            in if a \<in> set [0, 1, 2, 3, 4, 5] \<and> truthy (childrenCache x)
               then x\<lparr>childrenCache := CacheNull\<rparr> else x)" and
    tr2: "trace s'' = trace example_state @
           map (\<lambda>a. TextureRequested a
                      (case mapView (heap example_state a) of
                         Obj v \<Rightarrow> provider (heap example_state v)
                       | _ \<Rightarrow> Undefined)
                      (case mapView (heap example_state a) of
                         Obj v \<Rightarrow> if v = 0 then Obj 16 else heightProvider (heap example_state v)
                       | _ \<Rightarrow> Undefined))
             (filter (\<lambda>a. has_loadTexture (heap example_state a)) [0, 1, 2, 3, 4, 5])"
    by blast
  have c2: "childrenCache (heap s'' 2) = CacheNull"
    using hp2 by (simp add: example_state_def map_node_def blank_def)
  have t2: "trace s'' = [TextureRequested 1 (Obj 10) (Obj 16), TextureRequested 2 (Obj 10) (Obj 16),
             TextureRequested 3 (Obj 10) (Obj 16), TextureRequested 4 (Obj 10) (Obj 16),
             TextureRequested 5 (Obj 10) (Obj 16)]"
    unfolding tr2
    by (simp add: example_state_def example_view_def map_node_def blank_def has_loadTexture_def)
  show ?thesis
    using h1 h2 h3 h4 r pr res c t r2 pr2 res2 c2 t2 by blast
qed

text \<open>
  C2 (the code departs from the claim): for each of the four registered mode ids
  \<open>setRoot\<close> builds an instance of \<^verbatim>\<open>Number\<close>, not of the class the registry holds for
  the id, stores it as root and then throws a \<^verbatim>\<open>TypeError\<close>, because \<^verbatim>\<open>Number\<close> has no
  \<^verbatim>\<open>BASE_SCALE\<close>. This holds from every state.
\<close>

theorem setRoot_mode_id_builds_Number_object:
  "(\<exists>s'. setRoot e this (Num PLANAR) s = Inl (TypeError, s')
       \<and> root (heap s' this) = Obj (next_oid s)
       \<and> klass (heap s' (next_oid s)) = NumberClass
       \<and> Map_get mapModes PLANAR = Some MapPlaneNode)
   \<and> (\<exists>s'. setRoot e this (Num SPHERICAL) s = Inl (TypeError, s')
       \<and> root (heap s' this) = Obj (next_oid s)
       \<and> klass (heap s' (next_oid s)) = NumberClass
       \<and> Map_get mapModes SPHERICAL = Some MapSphereNode)
   \<and> (\<exists>s'. setRoot e this (Num HEIGHT) s = Inl (TypeError, s')
       \<and> root (heap s' this) = Obj (next_oid s)
       \<and> klass (heap s' (next_oid s)) = NumberClass
       \<and> Map_get mapModes HEIGHT = Some MapHeightNode)
   \<and> (\<exists>s'. setRoot e this (Num HEIGHT_SHADER) s = Inl (TypeError, s')
       \<and> root (heap s' this) = Obj (next_oid s)
       \<and> klass (heap s' (next_oid s)) = NumberClass
       \<and> Map_get mapModes HEIGHT_SHADER = Some MapHeightNodeShader)"
proof -
  have has: "Map_has mapModes PLANAR" "Map_has mapModes SPHERICAL" "Map_has mapModes HEIGHT"
    "Map_has mapModes HEIGHT_SHADER"
    by (simp_all add: mapModes_entries Map_has_def PLANAR_def SPHERICAL_def HEIGHT_def
        HEIGHT_SHADER_def)
  have get: "Map_get mapModes PLANAR = Some MapPlaneNode"
    "Map_get mapModes SPHERICAL = Some MapSphereNode"
    "Map_get mapModes HEIGHT = Some MapHeightNode"
    "Map_get mapModes HEIGHT_SHADER = Some MapHeightNodeShader"
    by (simp_all add: mapModes_entries Map_get_def PLANAR_def SPHERICAL_def HEIGHT_def
        HEIGHT_SHADER_def)
  show ?thesis
    using has [THEN setRoot_registered, of e this s] get by blast
qed

text \<open>
  C3: for a number that is not a key of the registry, \<open>setRoot\<close> throws at once, before
  any write: the state, and with it the root of the view, is the one before the call.
  Nothing catches the error: the constructor, the only caller inside the class, throws
  the same error.
\<close>

theorem setRoot_unregistered_mode_throws:
  assumes "\<not> Map_has mapModes m"
  shows "setRoot e this (Num m) s = Inl (ModeNotRegistered m, s)
     \<and> (\<exists>s'. MapView_constructor e (Num m) provider0 heightProvider0 s = Inl (ModeNotRegistered m, s'))"
  using assms
  by (simp add: setRoot_unregistered MapView_constructor_def Let_def split_beta)

theorem setRoot_unregistered_mode_throws_witness:
  "\<not> Map_has mapModes (Fin 7)
   \<and> setRoot example_env 0 (Num (Fin 7)) example_state = Inl (ModeNotRegistered (Fin 7), example_state)
   \<and> (\<exists>s'. MapView_constructor example_env (Num (Fin 7)) Undefined Undefined example_state =
          Inl (ModeNotRegistered (Fin 7), s'))"
proof -
  have h: "\<not> Map_has mapModes (Fin 7)"
    by (simp add: mapModes_entries Map_has_def)
  show ?thesis
    using h setRoot_unregistered_mode_throws [OF h, of example_env 0 example_state Undefined Undefined]
    by blast
qed

text \<open>
  C4: when the tree below the view is finite and within the call stack, \<open>clear\<close> returns
  the view itself; it visits the view and every resident node \<open>rs\<close>; no object changes
  class, parent or children and none is created, so the resident nodes are the same
  afterwards; the only property written is the children cache of a visited object,
  which is set to null where it held an array, so that no visited object keeps a
  cache; and every visited node re-requests its texture, in the order of the
  traversal, from the provider of its view.
\<close>

theorem clear_drops_content_keeps_shape:
  assumes "resident_nodes n s this = Some rs" and "n < stack_limit e"
  shows "\<exists>s'. clear e this s = Inr (Obj this, s')
     \<and> (\<forall>a. klass (heap s' a) = klass (heap s a)
           \<and> parent (heap s' a) = parent (heap s a)
           \<and> children (heap s' a) = children (heap s a))
     \<and> next_oid s' = next_oid s
     \<and> resident_nodes n s' this = Some rs
     \<and> (\<forall>a. heap s' a =
           (if a \<in> set (this # rs) \<and> truthy (childrenCache (heap s a))
            then (heap s a)\<lparr>childrenCache := CacheNull\<rparr> else heap s a))
     \<and> (\<forall>a \<in> set (this # rs). \<not> truthy (childrenCache (heap s' a)))
     \<and> trace s' = trace s @
           map (request_of s) (filter (\<lambda>a. has_loadTexture (heap s a)) (this # rs))"
proof -
  define ns where "ns = this # rs"
  define s' where "s' = fold clear_callback ns s"
  note props = fold_clear_callback_props [of ns s, folded s'_def]
  have r: "clear e this s = Inr (Obj this, s')"
    unfolding s'_def ns_def using assms by (rule clear_result)
  have res: "resident_nodes n s' this = Some rs"
    using assms(1) resident_nodes_cong [OF props(3)] by simp
  show ?thesis
    unfolding ns_def [symmetric]
    apply (rule exI [of _ s'])
    apply (intro conjI)
          apply (rule r)
         apply (rule props(1))
        apply (rule props(2))
       apply (rule res)
      apply (rule props(4))
     apply (rule props(5))
    apply (rule props(6))
    done
qed

theorem clear_drops_content_keeps_shape_witness:
  "resident_nodes 4 example_state 0 = Some [1, 2, 3, 4, 5]
   \<and> 4 < stack_limit example_env
   \<and> (\<exists>s'. clear example_env 0 example_state = Inr (Obj 0, s')
        \<and> resident_nodes 4 s' 0 = Some [1, 2, 3, 4, 5]
        \<and> childrenCache (heap s' 2) = CacheNull
        \<and> trace s' = [TextureRequested 1 (Obj 10) Null, TextureRequested 2 (Obj 10) Null,
             TextureRequested 3 (Obj 10) Null, TextureRequested 4 (Obj 10) Null,
             TextureRequested 5 (Obj 10) Null])"
proof -
  have h1: "resident_nodes 4 example_state 0 = Some [1, 2, 3, 4, 5]"
    by code_simp
  have h2: "4 < stack_limit example_env"
    by (simp add: example_env_def)
  from clear_drops_content_keeps_shape [OF h1 h2] obtain s' where
    r: "clear example_env 0 example_state = Inr (Obj 0, s')" and
    res: "resident_nodes 4 s' 0 = Some [1, 2, 3, 4, 5]" and
    hp: "\<forall>a. heap s' a =
           (if a \<in> set [0, 1, 2, 3, 4, 5] \<and> truthy (childrenCache (heap example_state a))
            then (heap example_state a)\<lparr>childrenCache := CacheNull\<rparr> else heap example_state a)" and
    tr: "trace s' = trace example_state @ map (request_of example_state)
           (filter (\<lambda>a. has_loadTexture (heap example_state a)) [0, 1, 2, 3, 4, 5])"
    by blast
  have c: "childrenCache (heap s' 2) = CacheNull"
    using hp by (simp add: example_state_def map_node_def blank_def)
  have t: "trace s' = [TextureRequested 1 (Obj 10) Null, TextureRequested 2 (Obj 10) Null,
             TextureRequested 3 (Obj 10) Null, TextureRequested 4 (Obj 10) Null,
             TextureRequested 5 (Obj 10) Null]"
    unfolding tr
    by (simp add: example_state_def example_view_def map_node_def blank_def request_of_def
        has_loadTexture_def)
  show ?thesis using h1 h2 r res c t by blast
qed



text \<open>
  C6: the registry \<open>mapModes\<close> enumerates exactly four entries, in this order: the planar
  mode with the planar node class, the spherical mode with the spherical node class,
  the CPU-height mode with the CPU-height node class and the GPU-height mode with the
  shader-height node class; a number is registered exactly when it is one of the four
  mode ids.
\<close>

theorem mapModes_exactly_four:
  "map fst mapModes = [PLANAR, SPHERICAL, HEIGHT, HEIGHT_SHADER]
   \<and> length mapModes = 4
   \<and> Map_get mapModes PLANAR = Some MapPlaneNode
   \<and> Map_get mapModes SPHERICAL = Some MapSphereNode
   \<and> Map_get mapModes HEIGHT = Some MapHeightNode
   \<and> Map_get mapModes HEIGHT_SHADER = Some MapHeightNodeShader
   \<and> Map_has mapModes m = (m = PLANAR \<or> m = SPHERICAL \<or> m = HEIGHT \<or> m = HEIGHT_SHADER)
   \<and> (Map_get mapModes m = None) = (\<not> Map_has mapModes m)"
  by (auto simp add: mapModes_entries Map_get_def Map_has_def PLANAR_def SPHERICAL_def
      HEIGHT_def HEIGHT_SHADER_def)

text \<open>
  C7 as the code has it, for a node instance: let \<open>r\<close> be an instance of a node class
  whose static \<open>BASE_SCALE\<close> is a vector, and not the view itself. Then \<open>setRoot\<close>
  returns, and the state after it is the state before it but for these writes: the
  field \<open>root\<close> of the view holds \<open>r\<close>; geometry and scale of the view are the statics
  \<open>BASE_GEOMETRY\<close> and \<open>BASE_SCALE\<close> of the class of \<open>r\<close>; \<open>r\<close> points back to the view
  and has the view as parent; a previous root that was a child of the view has no
  parent, unless it is \<open>r\<close>; the children of the view are the children before without
  the previous root (and without \<open>r\<close>, had it been another child of the view), followed
  by \<open>r\<close>; and \<open>r\<close> has left the children of the parent it had. Every other field of
  every object, the counter of identities and the trace are as before. In particular
  a previous root other than \<open>r\<close> is no longer among the children of the view (which
  list no object twice), while \<open>r\<close>, when it is the previous root, is removed and
  attached again.
\<close>

theorem setRoot_attaches_node:
  assumes node: "isMapNode (klass (heap s r))"
    and sc: "BASE_SCALE e (klass (heap s r)) = Some v"
    and ne: "r \<noteq> this"
  shows "\<exists>s'. setRoot e this (Obj r) s = Inr s'
     \<and> (\<forall>a. root (heap s' a) = (if a = this then Obj r else root (heap s a)))
     \<and> (\<forall>a. geometry (heap s' a) =
           (if a = this then BASE_GEOMETRY e (klass (heap s r)) else geometry (heap s a)))
     \<and> (\<forall>a. scale (heap s' a) = (if a = this then v else scale (heap s a)))
     \<and> (\<forall>a. mapView (heap s' a) = (if a = r then Obj this else mapView (heap s a)))
     \<and> (\<forall>a. parent (heap s' a) =
           (if a = r then Some this
            else if root (heap s this) = Obj a \<and> a \<in> set (children (heap s this)) then None
            else parent (heap s a)))
     \<and> (\<forall>a. children (heap s' a) =
           (let cs1 = (case root (heap s this) of
                         Obj q \<Rightarrow> remove1 q (children (heap s this))
                       | _ \<Rightarrow> children (heap s this));
                pr = (if root (heap s this) = Obj r \<and> r \<in> set (children (heap s this))
                      then None else parent (heap s r))
            in if a = this then (if pr = Some this then remove1 r cs1 else cs1) @ [r]
               else if pr = Some a then remove1 r (children (heap s a))
               else children (heap s a)))
     \<and> (\<forall>a. klass (heap s' a) = klass (heap s a)
           \<and> material (heap s' a) = material (heap s a)
           \<and> lod (heap s' a) = lod (heap s a)
           \<and> provider (heap s' a) = provider (heap s a)
           \<and> heightProvider (heap s' a) = heightProvider (heap s a)
           \<and> childrenCache (heap s' a) = childrenCache (heap s a))
     \<and> next_oid s' = next_oid s
     \<and> trace s' = trace s
     \<and> (\<forall>q. root (heap s this) = Obj q \<and> (q = r \<or> parent (heap s r) \<noteq> Some this)
            \<longrightarrow> children (heap s' this) = remove1 q (children (heap s this)) @ [r])
     \<and> (\<forall>q. root (heap s this) = Obj q \<and> q \<noteq> r \<and> distinct (children (heap s this))
            \<longrightarrow> q \<notin> set (children (heap s' this)))
     \<and> (\<forall>q. root (heap s this) = Obj q \<and> q \<noteq> r \<and> q \<in> set (children (heap s this))
            \<longrightarrow> parent (heap s' q) = None)"
proof -
  from setRoot_node_state [OF node sc ne] obtain s' where
    r: "setRoot e this (Obj r) s = Inr s'" and
    f_root: "\<forall>a. root (heap s' a) = (if a = this then Obj r else root (heap s a))" and
    f_geo: "\<forall>a. geometry (heap s' a) =
           (if a = this then BASE_GEOMETRY e (klass (heap s r)) else geometry (heap s a))" and
    f_scale: "\<forall>a. scale (heap s' a) = (if a = this then v else scale (heap s a))" and
    f_mv: "\<forall>a. mapView (heap s' a) = (if a = r then Obj this else mapView (heap s a))" and
    f_par: "\<forall>a. parent (heap s' a) =
           (if a = r then Some this
            else if root (heap s this) = Obj a \<and> a \<in> set (children (heap s this)) then None
            else parent (heap s a))" and
    f_ch: "\<forall>a. children (heap s' a) =
           (let cs1 = (case root (heap s this) of
                         Obj q \<Rightarrow> remove1 q (children (heap s this))
                       | _ \<Rightarrow> children (heap s this));
                pr = (if root (heap s this) = Obj r \<and> r \<in> set (children (heap s this))
                      then None else parent (heap s r))
            in if a = this then (if pr = Some this then remove1 r cs1 else cs1) @ [r]
               else if pr = Some a then remove1 r (children (heap s a))
               else children (heap s a))" and
    f_same: "\<forall>a. klass (heap s' a) = klass (heap s a)
           \<and> material (heap s' a) = material (heap s a)
           \<and> lod (heap s' a) = lod (heap s a)
           \<and> provider (heap s' a) = provider (heap s a)
           \<and> heightProvider (heap s' a) = heightProvider (heap s a)
           \<and> childrenCache (heap s' a) = childrenCache (heap s a)" and
    f_next: "next_oid s' = next_oid s" and
    f_trace: "trace s' = trace s"
    by blast
  have ch: "children (heap s' this) =
           (let cs1 = (case root (heap s this) of
                         Obj q \<Rightarrow> remove1 q (children (heap s this))
                       | _ \<Rightarrow> children (heap s this));
                pr = (if root (heap s this) = Obj r \<and> r \<in> set (children (heap s this))
                      then None else parent (heap s r))
            in (if pr = Some this then remove1 r cs1 else cs1) @ [r])"
    using f_ch [rule_format, of this] by (simp add: Let_def)
  have c_list: "\<forall>q. root (heap s this) = Obj q \<and> (q = r \<or> parent (heap s r) \<noteq> Some this)
            \<longrightarrow> children (heap s' this) = remove1 q (children (heap s this)) @ [r]"
    unfolding ch by (auto simp add: Let_def remove1_not_in)
  have c_det: "\<forall>q. root (heap s this) = Obj q \<and> q \<noteq> r \<and> distinct (children (heap s this))
            \<longrightarrow> q \<notin> set (children (heap s' this))"
    unfolding ch by (auto simp add: Let_def set_remove1_subset')
  have c_par: "\<forall>q. root (heap s this) = Obj q \<and> q \<noteq> r \<and> q \<in> set (children (heap s this))
            \<longrightarrow> parent (heap s' q) = None"
    using f_par by simp
  show ?thesis
    apply (rule exI [of _ s'])
    apply (intro conjI)
                apply (rule r)
               apply (rule f_root)
              apply (rule f_geo)
             apply (rule f_scale)
            apply (rule f_mv)
           apply (rule f_par)
          apply (rule f_ch)
         apply (rule f_same)
        apply (rule f_next)
       apply (rule f_trace)
      apply (rule c_list)
     apply (rule c_det)
    apply (rule c_par)
    done
qed

text \<open>
  C7 as stated fails when \<open>r\<close> is the current root: node 1 is the root of the view, and
  after \<open>setRoot\<close> with node 1 the call has returned and the previous root is still a
  child of the view, with the view as parent.
\<close>

theorem setRoot_previous_root_detached_counterexample:
  "root (heap example_state 0) = Obj 1
   \<and> isMapNode (klass (heap example_state 1))
   \<and> returned (setRoot example_env 0 (Obj 1) example_state)
   \<and> 1 \<in> set (children (heap (state_after (setRoot example_env 0 (Obj 1) example_state)) 0))
   \<and> parent (heap (state_after (setRoot example_env 0 (Obj 1) example_state)) 1) = Some 0"
proof -
  have n: "isMapNode (klass (heap example_state 1))"
    and b: "BASE_SCALE example_env (klass (heap example_state 1)) = Some (40075016, 1, 40075016)"
    by (simp_all add: example_state_def example_env_def map_node_def blank_def)
  have d: "(1::nat) \<noteq> 0" by simp
  have o: "root (heap example_state 0) = Obj 1" "children (heap example_state 0) = [1]"
    by (simp_all add: example_state_def example_view_def)
  from setRoot_node_state [OF n b d] obtain s' where
    r: "setRoot example_env 0 (Obj 1) example_state = Inr s'" and
    p: "\<forall>a. parent (heap s' a) =
           (if a = 1 then Some 0
            else if root (heap example_state 0) = Obj a
                    \<and> a \<in> set (children (heap example_state 0)) then None
            else parent (heap example_state a))" and
    c: "\<forall>a. children (heap s' a) =
           (let cs1 = (case root (heap example_state 0) of
                         Obj q \<Rightarrow> remove1 q (children (heap example_state 0))
                       | _ \<Rightarrow> children (heap example_state 0));
                pr = (if root (heap example_state 0) = Obj 1
                         \<and> 1 \<in> set (children (heap example_state 0))
                      then None else parent (heap example_state 1))
            in if a = 0 then (if pr = Some 0 then remove1 1 cs1 else cs1) @ [1]
               else if pr = Some a then remove1 1 (children (heap example_state a))
               else children (heap example_state a))"
    by blast
  have "returned (setRoot example_env 0 (Obj 1) example_state)"
    unfolding r by (simp add: returned_def)
  moreover have "state_after (setRoot example_env 0 (Obj 1) example_state) = s'"
    unfolding r by (simp add: state_after_def)
  moreover have "children (heap s' 0) = [1]"
    using c [rule_format, of 0] o by (simp add: Let_def)
  moreover have "parent (heap s' 1) = Some 0"
    using p [rule_format, of 1] by simp
  ultimately show ?thesis
    using o n by simp
qed

theorem setRoot_attaches_node_witness:
  "isMapNode (klass (heap example_state 14))
   \<and> BASE_SCALE example_env (klass (heap example_state 14)) = Some (40075016, 1, 40075016)
   \<and> (14::nat) \<noteq> 0
   \<and> root (heap example_state 0) = Obj 1
   \<and> parent (heap example_state 14) \<noteq> Some 0
   \<and> (\<exists>s'. setRoot example_env 0 (Obj 14) example_state = Inr s'
        \<and> root (heap s' 0) = Obj 14
        \<and> scale (heap s' 0) = (40075016, 1, 40075016)
        \<and> mapView (heap s' 14) = Obj 0
        \<and> parent (heap s' 14) = Some 0
        \<and> children (heap s' 0) = [14]
        \<and> 1 \<notin> set (children (heap s' 0))
        \<and> parent (heap s' 1) = None)"
proof -
  have n: "isMapNode (klass (heap example_state 14))"
    and b: "BASE_SCALE example_env (klass (heap example_state 14)) = Some (40075016, 1, 40075016)"
    by (simp_all add: example_state_def example_env_def map_node_def blank_def)
  have o: "root (heap example_state 0) = Obj 1" "children (heap example_state 0) = [1]"
    "parent (heap example_state 14) \<noteq> Some 0"
    by (simp_all add: example_state_def example_view_def map_node_def blank_def)
  have d: "(14::nat) \<noteq> 0" by simp
  from setRoot_attaches_node [OF n b d] obtain s' where
    r: "setRoot example_env 0 (Obj 14) example_state = Inr s'" and
    f_root: "\<forall>a. root (heap s' a) = (if a = 0 then Obj 14 else root (heap example_state a))" and
    f_scale: "\<forall>a. scale (heap s' a) =
        (if a = 0 then (40075016, 1, 40075016) else scale (heap example_state a))" and
    f_mv: "\<forall>a. mapView (heap s' a) = (if a = 14 then Obj 0 else mapView (heap example_state a))" and
    f_par: "\<forall>a. parent (heap s' a) =
           (if a = 14 then Some 0
            else if root (heap example_state 0) = Obj a
                    \<and> a \<in> set (children (heap example_state 0)) then None
            else parent (heap example_state a))" and
    c_list: "\<forall>q. root (heap example_state 0) = Obj q
            \<and> (q = 14 \<or> parent (heap example_state 14) \<noteq> Some 0)
            \<longrightarrow> children (heap s' 0) = remove1 q (children (heap example_state 0)) @ [14]" and
    det: "\<forall>q. root (heap example_state 0) = Obj q \<and> q \<noteq> 14
            \<and> distinct (children (heap example_state 0))
            \<longrightarrow> q \<notin> set (children (heap s' 0))" and
    par: "\<forall>q. root (heap example_state 0) = Obj q \<and> q \<noteq> 14
            \<and> q \<in> set (children (heap example_state 0))
            \<longrightarrow> parent (heap s' q) = None"
    by blast
  have "children (heap s' 0) = [14]"
    using c_list [rule_format, of 1] o by simp
  moreover have "1 \<notin> set (children (heap s' 0))"
    using det [rule_format, of 1] o by simp
  moreover have "parent (heap s' 1) = None"
    using par [rule_format, of 1] o by simp
  moreover have "root (heap s' 0) = Obj 14" "scale (heap s' 0) = (40075016, 1, 40075016)"
    "mapView (heap s' 14) = Obj 0" "parent (heap s' 14) = Some 0"
    using f_root f_scale f_mv f_par by simp_all
  ultimately show ?thesis
    using n b r o by simp
qed

text \<open>
  C8: whenever the constructor returns a view, the field \<open>lod\<close> holds a new instance of
  \<open>LODRaycast\<close>; the color provider is a new \<open>OpenStreetMapsProvider\<close> when the argument
  was undefined and the argument otherwise; the height provider is null when the
  argument was undefined and the argument otherwise.
\<close>

theorem constructor_defaults:
  assumes "MapView_constructor e root0 provider0 heightProvider0 s = Inr (this, s')"
  shows "(\<exists>l. lod (heap s' this) = Obj l \<and> klass (heap s' l) = LODRaycast \<and> next_oid s \<le> l)
     \<and> (provider0 = Undefined \<longrightarrow>
          (\<exists>p. provider (heap s' this) = Obj p \<and> klass (heap s' p) = OpenStreetMapsProvider
             \<and> next_oid s \<le> p))
     \<and> (provider0 \<noteq> Undefined \<longrightarrow> provider (heap s' this) = provider0)
     \<and> (heightProvider0 = Undefined \<longrightarrow> heightProvider (heap s' this) = Null)
     \<and> (heightProvider0 \<noteq> Undefined \<longrightarrow> heightProvider (heap s' this) = heightProvider0)
     \<and> klass (heap s' this) = MapViewClass
     \<and> next_oid s \<le> this"
proof -
  let ?s9 = "snd (MapView_fields root0 provider0 heightProvider0 s)"
  from assms have th: "this = Suc (Suc (next_oid s))"
    and r: "setRoot e (Suc (Suc (next_oid s))) root0 ?s9 = Inr s'"
    by (auto simp add: MapView_constructor_fields MapView_fields_this split: sum.splits)
  note fr = setRoot_frame [OF r]
  have l: "lod (heap s' this) = Obj (Suc (Suc (Suc (next_oid s))))"
    "klass (heap s' (Suc (Suc (Suc (next_oid s))))) = LODRaycast"
    unfolding th by (simp_all add: fr MapView_fields_lod)
  have p1: "provider0 = Undefined \<longrightarrow>
      provider (heap s' this) = Obj (Suc (Suc (Suc (Suc (next_oid s)))))
      \<and> klass (heap s' (Suc (Suc (Suc (Suc (next_oid s)))))) = OpenStreetMapsProvider"
    unfolding th by (simp add: fr MapView_fields_provider_default)
  have p2: "provider0 \<noteq> Undefined \<longrightarrow> provider (heap s' this) = provider0"
    unfolding th by (simp add: fr MapView_fields_provider_given)
  have h: "heightProvider (heap s' this) =
      (if heightProvider0 \<noteq> Undefined then heightProvider0 else Null)"
    unfolding th by (simp add: fr MapView_fields_heightProvider)
  have k: "klass (heap s' this) = MapViewClass"
    unfolding th by (simp add: fr MapView_fields_klass)
  have "\<exists>l. lod (heap s' this) = Obj l \<and> klass (heap s' l) = LODRaycast \<and> next_oid s \<le> l"
    using l by (intro exI [of _ "Suc (Suc (Suc (next_oid s)))"]) simp
  moreover have "provider0 = Undefined \<longrightarrow>
          (\<exists>p. provider (heap s' this) = Obj p \<and> klass (heap s' p) = OpenStreetMapsProvider
             \<and> next_oid s \<le> p)"
    using p1 by (intro impI exI [of _ "Suc (Suc (Suc (Suc (next_oid s))))"]) simp
  ultimately show ?thesis
    using p2 h k th by simp
qed

theorem constructor_defaults_witness:
  "\<exists>s'. MapView_constructor example_env (Obj 14) Undefined Undefined example_state = Inr (22, s')
     \<and> (\<exists>l. lod (heap s' 22) = Obj l \<and> klass (heap s' l) = LODRaycast)
     \<and> (\<exists>p. provider (heap s' 22) = Obj p \<and> klass (heap s' p) = OpenStreetMapsProvider)
     \<and> heightProvider (heap s' 22) = Null"
proof -
  have n: "next_oid example_state = 20"
    by (simp add: example_state_def)
  have k: "klass (heap (snd (MapView_fields (Obj 14) Undefined Undefined example_state)) 14) =
      MapSphereNode"
    by (simp add: MapView_fields_klass_old n) (simp add: example_state_def map_node_def blank_def)
  have b: "static_BASE_SCALE example_env MapSphereNode = Some (40075016, 1, 40075016)"
    by (simp add: static_BASE_SCALE_def example_env_def)
  have v: "fst (MapView_fields (Obj 14) Undefined Undefined example_state) = 22"
    by (simp add: MapView_fields_this n)
  obtain s' where
    r: "MapView_constructor example_env (Obj 14) Undefined Undefined example_state = Inr (22, s')"
    by (simp add: MapView_constructor_fields setRoot_Obj k b v)
  show ?thesis
    using r constructor_defaults [OF r] by blast
qed

text \<open>
  C9: \<open>setProvider\<close> with the provider the view already holds (the same reference)
  returns the state unchanged, and so does \<open>setHeightProvider\<close> with the current height
  provider. Hence a second call with the same argument, right after a call that
  returned, changes nothing.
\<close>

theorem setProvider_same_provider_is_noop:
  "(strict_eq p (provider (heap s this)) \<longrightarrow> setProvider e this p s = Inr s)
   \<and> (strict_eq hp (heightProvider (heap s this)) \<longrightarrow> setHeightProvider e this hp s = Inr s)
   \<and> (strict_eq p p \<longrightarrow>
        (\<forall>s1. setProvider e this p s = Inr s1 \<longrightarrow> setProvider e this p s1 = Inr s1))
   \<and> (strict_eq hp hp \<longrightarrow>
        (\<forall>s1. setHeightProvider e this hp s = Inr s1 \<longrightarrow> setHeightProvider e this hp s1 = Inr s1))"
proof (intro conjI impI allI)
  assume "strict_eq p (provider (heap s this))"
  then show "setProvider e this p s = Inr s" by (simp add: setProvider_def)
next
  assume "strict_eq hp (heightProvider (heap s this))"
  then show "setHeightProvider e this hp s = Inr s" by (simp add: setHeightProvider_def)
next
  fix s1
  assume "strict_eq p p" and "setProvider e this p s = Inr s1"
  then have "strict_eq p (provider (heap s1 this))"
    using setProvider_sets by simp
  then show "setProvider e this p s1 = Inr s1" by (simp add: setProvider_def)
next
  fix s1
  assume "strict_eq hp hp" and "setHeightProvider e this hp s = Inr s1"
  then have "strict_eq hp (heightProvider (heap s1 this))"
    using setHeightProvider_sets by simp
  then show "setHeightProvider e this hp s1 = Inr s1" by (simp add: setHeightProvider_def)
qed


theorem setProvider_same_provider_is_noop_witness:
  "strict_eq (Obj 10) (provider (heap example_state 0))
   \<and> setProvider example_env 0 (Obj 10) example_state = Inr example_state
   \<and> strict_eq Null (heightProvider (heap example_state 0))
   \<and> setHeightProvider example_env 0 Null example_state = Inr example_state
   \<and> strict_eq (Obj 15) (Obj 15)
   \<and> (\<exists>s1. setProvider example_env 0 (Obj 15) example_state = Inr s1
         \<and> setProvider example_env 0 (Obj 15) s1 = Inr s1)
   \<and> strict_eq (Obj 16) (Obj 16)
   \<and> (\<exists>s1. setHeightProvider example_env 0 (Obj 16) example_state = Inr s1
         \<and> setHeightProvider example_env 0 (Obj 16) s1 = Inr s1)"
proof -
  have h1: "strict_eq (Obj 10) (provider (heap example_state 0))"
    by (simp add: strict_eq_def example_state_def example_view_def)
  have h2: "strict_eq Null (heightProvider (heap example_state 0))"
    by (simp add: strict_eq_def example_state_def example_view_def)
  have h3: "strict_eq (Obj 15) (Obj 15)" "strict_eq (Obj 16) (Obj 16)"
    by (simp_all add: strict_eq_def)
  have lim: "4 < stack_limit example_env"
    by (simp add: example_env_def)
  have d1: "\<not> strict_eq (Obj 15) (provider (heap example_state 0))"
    by (simp add: strict_eq_def example_state_def example_view_def)
  have d2: "\<not> strict_eq (Obj 16) (heightProvider (heap example_state 0))"
    by (simp add: strict_eq_def example_state_def example_view_def)
  obtain s1 where r1: "setProvider example_env 0 (Obj 15) example_state = Inr s1"
    using setProvider_result [OF example_resident lim d1] by blast
  obtain s2 where r2: "setHeightProvider example_env 0 (Obj 16) example_state = Inr s2"
    using setHeightProvider_result [OF example_resident lim d2] by blast
  note same = setProvider_same_provider_is_noop
    [where p = "Obj 10" and hp = Null and s = example_state and this = 0 and e = example_env]
  note again = setProvider_same_provider_is_noop
    [where p = "Obj 15" and hp = "Obj 16" and s = example_state and this = 0 and e = example_env]
  have a1: "setProvider example_env 0 (Obj 15) s1 = Inr s1"
    using again h3 r1 by blast
  have a2: "setHeightProvider example_env 0 (Obj 16) s2 = Inr s2"
    using again h3 r2 by blast
  show ?thesis
    using same h1 h2 h3 r1 r2 a1 a2 by blast
qed

text \<open>
  C10: \<open>raycast\<close> returns false and leaves the list of intersections (and the state) as
  they are, for every raycaster and every list: the mesh of the view itself is never hit.
\<close>

theorem raycast_never_hits:
  "raycast this raycaster intersects s = (False, intersects, s)"
  by (simp add: raycast_def)

end
